theory Spec2Isabelle
  imports Complex_Main
begin

section \<open>Text, numbers and the base tables\<close>

text \<open>
  The program is \<^verbatim>\<open>OrthoEvidenceProcessor\<close> of \<^verbatim>\<open>evidence_processor.py\<close>.
  A Python \<^verbatim>\<open>str\<close> is a sequence of Unicode code points and most literals of the
  source are Japanese, so a string is embedded as the list of its code points.
  A Python \<^verbatim>\<open>float\<close> is embedded as a real number: the arithmetic below is the
  exact arithmetic the source writes down, without binary rounding.
\<close>

type_synonym ustr = "nat list"

definition ascii :: "string \<Rightarrow> ustr" where
  "ascii s = map of_char s"

text \<open>
  The columns of the three base tables that the aggregation reads.
  \<^verbatim>\<open>effect_direction\<close> is only ever written by \<^verbatim>\<open>_parse_risk_description\<close>,
  which produces one of three literals; \<^verbatim>\<open>effect_value\<close> is NULL when no numeric
  pattern was found; \<^verbatim>\<open>issue_id\<close> of a finding is NULL when the issue name of the
  imported row is unknown.
\<close>

datatype effect_direction = increase | decrease | neutral

record research_paper =
  paper_id :: int
  evidence_level :: "ustr option"

record dental_issue =
  issue_id :: int
  issue_name_ja :: ustr
  severity_base_score :: "real option"

record research_finding =
  rf_paper_id :: int
  rf_issue_id :: "int option"
  rf_finding_type :: ustr
  rf_description_ja :: ustr
  rf_effect_value :: "real option"
  rf_effect_direction :: effect_direction
  rf_applies_to_age_min :: int
  rf_applies_to_age_max :: int

record base_tables =
  research_papers :: "research_paper list"
  dental_issues :: "dental_issue list"
  research_findings :: "research_finding list"

section \<open>Evidence weighting\<close>

text \<open>\<^verbatim>\<open>_get_evidence_level_weight\<close>: \<^verbatim>\<open>weights.get(evidence_level, 0.5)\<close>; a NULL
  level is a key that is not in the dictionary.\<close>

definition weights :: "(ustr \<times> real) list" where
  "weights =
    [(ascii ''1a'', 5.0), (ascii ''1b'', 4.0), (ascii ''2a'', 3.0), (ascii ''2b'', 2.0),
     (ascii ''3'', 1.5), (ascii ''4'', 1.0), (ascii ''5'', 0.5)]"

definition get_evidence_level_weight :: "ustr option \<Rightarrow> real" where
  "get_evidence_level_weight level =
    (case level of
       None \<Rightarrow> 0.5
     | Some l \<Rightarrow> (case map_of weights l of Some w \<Rightarrow> w | None \<Rightarrow> 0.5))"

section \<open>Timing benefits\<close>

text \<open>
  \<^verbatim>\<open>generate_age_timing_benefits\<close>. The rows carry the group code, the age range,
  the timing score, the provenance marker and the confidence; the Japanese group
  name, benefit text and recommendation label are fixed literals per group and are
  left out of the row.
\<close>

record timing_benefit =
  tb_age_group_code :: ustr
  tb_age_min :: int
  tb_age_max :: int
  tb_timing_score :: real
  tb_calculated_from :: ustr
  tb_confidence_level :: real

definition timing_age_groups :: "(ustr \<times> int \<times> int) list" where
  "timing_age_groups =
    [(ascii ''pediatric'', 7, 12), (ascii ''adolescent'', 13, 18),
     (ascii ''young_adult'', 19, 35), (ascii ''adult'', 36, 60),
     (ascii ''elderly'', 61, 100)]"

definition group_timing_score :: "ustr \<Rightarrow> real" where
  "group_timing_score group_code =
    (if group_code = ascii ''pediatric'' then 100
     else if group_code = ascii ''adolescent'' then 80
     else if group_code = ascii ''young_adult'' then 60
     else if group_code = ascii ''adult'' then 40
     else 20)"

text \<open>The \<^verbatim>\<open>SELECT COUNT(*)\<close> over findings joined with their papers whose age range
  meets the bucket \<open>[age_min, age_max]\<close>.\<close>

definition evidence_count :: "base_tables \<Rightarrow> int \<Rightarrow> int \<Rightarrow> nat" where
  "evidence_count db age_min age_max =
    length [rf. rf \<leftarrow> research_findings db, rp \<leftarrow> research_papers db,
                rf_paper_id rf = paper_id rp,
                rf_applies_to_age_min rf \<le> age_max \<and> rf_applies_to_age_max rf \<ge> age_min]"

definition timing_confidence :: "nat \<Rightarrow> real" where
  "timing_confidence n =
    (if n > 0 then min (0.5 + real n / 20) 0.95 else 0.7)"

definition timing_benefit_row :: "base_tables \<Rightarrow> ustr \<times> int \<times> int \<Rightarrow> timing_benefit" where
  "timing_benefit_row db g =
    (case g of (group_code, age_min, age_max) \<Rightarrow>
      \<lparr>tb_age_group_code = group_code, tb_age_min = age_min, tb_age_max = age_max,
       tb_timing_score = group_timing_score group_code,
       tb_calculated_from = ascii ''combined_evidence'',
       tb_confidence_level = timing_confidence (evidence_count db age_min age_max)\<rparr>)"

definition timing_benefit_rows :: "base_tables \<Rightarrow> timing_benefit list" where
  "timing_benefit_rows db = map (timing_benefit_row db) timing_age_groups"

section \<open>Future scenarios\<close>

text \<open>
  \<^verbatim>\<open>generate_future_scenarios\<close>: the outer loop runs over the time frames, the inner
  one over the age groups. The two narrative texts are built from fixed Japanese
  clauses and are left out of the row.
\<close>

record future_scenario =
  fs_timeframe_years :: int
  fs_applies_to_age_min :: int
  fs_applies_to_age_max :: int
  fs_calculated_from :: ustr
  fs_confidence_level :: real

definition timeframes :: "int list" where
  "timeframes = [5, 10, 20]"

definition scenario_age_groups :: "(int \<times> int) list" where
  "scenario_age_groups = [(7, 18), (19, 40), (41, 100)]"

definition scenario_confidence :: "int \<Rightarrow> real" where
  "scenario_confidence years = 0.8 - real_of_int years / 50"

definition future_scenario_rows :: "future_scenario list" where
  "future_scenario_rows =
    [\<lparr>fs_timeframe_years = years, fs_applies_to_age_min = fst g,
      fs_applies_to_age_max = snd g,
      fs_calculated_from = ascii ''evidence_synthesis'',
      fs_confidence_level = scenario_confidence years\<rparr>.
     years \<leftarrow> timeframes, g \<leftarrow> scenario_age_groups]"

section \<open>Text signal extraction\<close>

text \<open>
  \<^verbatim>\<open>keyword in description\<close>: the keyword occurs as a contiguous piece of the text.
\<close>

fun starts_with :: "'a list \<Rightarrow> 'a list \<Rightarrow> bool" where
  "starts_with [] s = True"
| "starts_with (k # ks) [] = False"
| "starts_with (k # ks) (c # cs) = (k = c \<and> starts_with ks cs)"

fun py_in :: "'a list \<Rightarrow> 'a list \<Rightarrow> bool" where
  "py_in kw [] = (kw = [])"
| "py_in kw (c # cs) = (starts_with kw (c # cs) \<or> py_in kw cs)"

text \<open>
  In a pattern over \<^verbatim>\<open>str\<close> the class \<^verbatim>\<open>\d\<close> is every decimal digit of the Unicode
  database, and \<^verbatim>\<open>float\<close> reads each of them by its digit value. The decimal digits
  come in blocks of ten consecutive code points, zero first; the list holds the
  first code point of every block (Unicode 14).
\<close>

definition decimal_blocks :: "nat list" where
  "decimal_blocks =
    [48, 1632, 1776, 1984, 2406, 2534, 2662, 2790, 2918, 3046, 3174, 3302, 3430, 3558,
     3664, 3792, 3872, 4160, 4240, 6112, 6160, 6470, 6608, 6784, 6800, 6992, 7088, 7232,
     7248, 42528, 43216, 43264, 43472, 43504, 43600, 44016, 65296, 66720, 68912, 69734,
     69872, 69942, 70096, 70384, 70736, 70864, 71248, 71360, 71472, 71904, 72016, 72784,
     73040, 73120, 92768, 92864, 93008, 120782, 120792, 120802, 120812, 120822, 123200,
     123632, 125264, 130032]"

definition digit_value :: "nat \<Rightarrow> nat option" where
  "digit_value c =
    (case find (\<lambda>z. z \<le> c \<and> c < z + 10) decimal_blocks of
       Some z \<Rightarrow> Some (c - z)
     | None \<Rightarrow> None)"

text \<open>The longest run of digits at the head of a text, as digit values, and what follows it.\<close>

fun take_digits :: "ustr \<Rightarrow> nat list \<times> ustr" where
  "take_digits [] = ([], [])"
| "take_digits (c # cs) =
    (case digit_value c of
       None \<Rightarrow> ([], c # cs)
     | Some d \<Rightarrow> (case take_digits cs of (ds, rest) \<Rightarrow> (d # ds, rest)))"

text \<open>
  One attempt of the pattern \<^verbatim>\<open>(\d+\.?\d*)X\<close> at the head of a text, for a closing
  character \<^verbatim>\<open>X\<close> that is neither a digit nor the full stop (\<^verbatim>\<open>%\<close>, code point 37,
  or the multiplier sign, code point 20493). The greedy \<^verbatim>\<open>\d+\<close> takes the whole run
  of digits; a shorter choice leaves a digit in front of \<^verbatim>\<open>X\<close> and cannot succeed.
  The result is the group: the digits before and after the full stop.
\<close>

definition match_number_at :: "nat \<Rightarrow> ustr \<Rightarrow> (nat list \<times> nat list) option" where
  "match_number_at x s =
    (case take_digits s of (ip, rest) \<Rightarrow>
      if ip = [] then None
      else (case rest of
              [] \<Rightarrow> None
            | c # rest' \<Rightarrow>
                if c = x then Some (ip, [])
                else if c = 46 then
                  (case take_digits rest' of (fp, rest'') \<Rightarrow>
                    (case rest'' of
                       [] \<Rightarrow> None
                     | c' # _ \<Rightarrow> if c' = x then Some (ip, fp) else None))
                else None))"

text \<open>\<^verbatim>\<open>re.search\<close> tries the positions of the text from left to right.\<close>

fun re_search_number :: "nat \<Rightarrow> ustr \<Rightarrow> (nat list \<times> nat list) option" where
  "re_search_number x [] = None"
| "re_search_number x (c # cs) =
    (case match_number_at x (c # cs) of
       Some g \<Rightarrow> Some g
     | None \<Rightarrow> re_search_number x cs)"

text \<open>\<^verbatim>\<open>float(value_match.group(1))\<close> on a group \<^verbatim>\<open>ddd\<close>, \<^verbatim>\<open>ddd.\<close> or \<^verbatim>\<open>ddd.ddd\<close>.\<close>

definition decimal_number :: "nat list \<Rightarrow> nat" where
  "decimal_number ds = foldl (\<lambda>a d. 10 * a + d) 0 ds"

definition float_of_group :: "nat list \<times> nat list \<Rightarrow> real" where
  "float_of_group g =
    real (decimal_number (fst g)) + real (decimal_number (snd g)) / 10 ^ length (snd g)"

definition percent_sign :: nat where
  "percent_sign = 37"

definition bai :: nat where
  "bai = 20493"

definition kw_increase :: "ustr list" where
  "kw_increase = [[19978, 26119], [22679, 21152], [39640, 12414, 12427], [bai]]"

definition kw_decrease :: "ustr list" where
  "kw_decrease = [[20302, 19979], [28187, 23569], [25913, 21892]]"

definition parse_effect_value :: "ustr \<Rightarrow> real option" where
  "parse_effect_value risk_description =
    (case re_search_number percent_sign risk_description of
       Some g \<Rightarrow> Some (float_of_group g)
     | None \<Rightarrow>
        (case re_search_number bai risk_description of
           Some g \<Rightarrow> Some (float_of_group g * 100 - 100)
         | None \<Rightarrow> None))"

definition parse_effect_direction :: "ustr \<Rightarrow> effect_direction" where
  "parse_effect_direction risk_description =
    (if list_ex (\<lambda>kw. py_in kw risk_description) kw_increase then increase
     else if list_ex (\<lambda>kw. py_in kw risk_description) kw_decrease then decrease
     else neutral)"

definition parse_risk_description :: "ustr \<Rightarrow> real option \<times> effect_direction" where
  "parse_risk_description risk_description =
    (parse_effect_value risk_description, parse_effect_direction risk_description)"

section \<open>Age risk profiles\<close>

text \<open>
  Python's truth test on a column value: \<^verbatim>\<open>None\<close> and \<^verbatim>\<open>0.0\<close> are false.
\<close>

definition truthy :: "real option \<Rightarrow> bool" where
  "truthy v = (case v of None \<Rightarrow> False | Some x \<Rightarrow> x \<noteq> 0)"

text \<open>\<^verbatim>\<open>','.join(parts)\<close>; the comma is code point 44.\<close>

fun join_comma :: "ustr list \<Rightarrow> ustr" where
  "join_comma [] = []"
| "join_comma [p] = p"
| "join_comma (p # q # ps) = p @ 44 # join_comma (q # ps)"

text \<open>\<^verbatim>\<open>str\<close> of an integer: decimal digits, with a minus sign (code point 45) when negative.\<close>

fun str_nat :: "nat \<Rightarrow> ustr" where
  "str_nat n = (if n < 10 then [48 + n] else str_nat (n div 10) @ [48 + n mod 10])"

declare str_nat.simps [simp del]

definition str_int :: "int \<Rightarrow> ustr" where
  "str_int i = (if i < 0 then 45 # str_nat (nat (- i)) else str_nat (nat i))"

record age_risk_profile =
  arp_age_threshold :: int
  arp_risk_type :: ustr
  arp_risk_value :: real
  arp_calculated_from :: ustr
  arp_confidence_level :: real

definition age_thresholds :: "int list" where
  "age_thresholds = [12, 18, 25, 40, 60]"

text \<open>
  The query of \<^verbatim>\<open>generate_age_risk_profiles\<close> for one threshold: findings joined
  with their paper and their dental issue, of type \<^verbatim>\<open>risk\<close>, of direction
  \<^verbatim>\<open>increase\<close>, whose upper age is at least the threshold. Of the seven selected
  columns the loop uses the effect value and the evidence level.
\<close>

definition risk_findings :: "base_tables \<Rightarrow> int \<Rightarrow> (real option \<times> ustr option) list" where
  "risk_findings db threshold =
    [(rf_effect_value rf, evidence_level rp).
       rf \<leftarrow> research_findings db, rp \<leftarrow> research_papers db, rf_paper_id rf = paper_id rp,
       di \<leftarrow> dental_issues db, rf_issue_id rf = Some (issue_id di),
       rf_finding_type rf = ascii ''risk'',
       rf_effect_direction rf = increase,
       rf_applies_to_age_max rf \<ge> threshold]"

text \<open>
  The loop over the findings of one threshold, with its three accumulators. The
  list called \<^verbatim>\<open>paper_ids\<close> receives \<^verbatim>\<open>str(finding[0])\<close>, and column 0 of the query
  is the effect value. \<open>str_float\<close> is Python's \<^verbatim>\<open>str\<close> on a float, which
  the repository does not define; it is a parameter.
\<close>

fun risk_loop ::
  "(real \<Rightarrow> ustr) \<Rightarrow> (real option \<times> ustr option) list \<Rightarrow> real \<Rightarrow> real \<Rightarrow> ustr list
     \<Rightarrow> real \<times> real \<times> ustr list" where
  "risk_loop str_float [] total_weight weighted_risk paper_ids =
     (total_weight, weighted_risk, paper_ids)"
| "risk_loop str_float (finding # findings) total_weight weighted_risk paper_ids =
     (let weight = get_evidence_level_weight (snd finding) in
      case fst finding of
        None \<Rightarrow> risk_loop str_float findings total_weight weighted_risk paper_ids
      | Some effect_value \<Rightarrow>
          if effect_value \<noteq> 0 then
            risk_loop str_float findings (total_weight + weight)
              (weighted_risk + effect_value * weight) (paper_ids @ [str_float effect_value])
          else risk_loop str_float findings total_weight weighted_risk paper_ids)"

text \<open>The body of the threshold loop on the fetched findings: the rows it appends to
  \<^verbatim>\<open>profiles\<close> (none or one).\<close>

definition profile_from_findings ::
  "(real \<Rightarrow> ustr) \<Rightarrow> int \<Rightarrow> (real option \<times> ustr option) list \<Rightarrow> age_risk_profile list" where
  "profile_from_findings str_float threshold findings =
    (if findings \<noteq> [] then
       (case risk_loop str_float findings 0 0 [] of
          (total_weight, weighted_risk, paper_ids) \<Rightarrow>
            if total_weight > 0 then
              [\<lparr>arp_age_threshold = threshold, arp_risk_type = ascii ''tooth_loss'',
                arp_risk_value = weighted_risk / total_weight,
                arp_calculated_from = join_comma paper_ids,
                arp_confidence_level = min (total_weight / real (length findings)) 0.95\<rparr>]
            else
              [\<lparr>arp_age_threshold = threshold, arp_risk_type = ascii ''tooth_loss'',
                arp_risk_value = real_of_int threshold / 2,
                arp_calculated_from = ascii ''default'',
                arp_confidence_level = 0.5\<rparr>])
     else [])"

definition age_risk_profile_at ::
  "(real \<Rightarrow> ustr) \<Rightarrow> base_tables \<Rightarrow> int \<Rightarrow> age_risk_profile list" where
  "age_risk_profile_at str_float db threshold =
    profile_from_findings str_float threshold (risk_findings db threshold)"

definition age_risk_profile_rows :: "(real \<Rightarrow> ustr) \<Rightarrow> base_tables \<Rightarrow> age_risk_profile list" where
  "age_risk_profile_rows str_float db =
    concat (map (age_risk_profile_at str_float db) age_thresholds)"

section \<open>Treatment effects\<close>

datatype effect_category =
  caries_risk | periodontal_risk | tmj_risk | mastication | aesthetic | pronunciation
  | trauma_risk | other

record treatment_effect =
  te_issue_id :: int
  te_effect_category :: effect_category
  te_effect_value :: real
  te_effect_direction :: effect_direction
  te_calculated_from :: ustr
  te_confidence_level :: real

text \<open>A row of the per-issue query: effect value, direction, description, evidence
  level and paper id.\<close>

type_synonym effect_finding = "real option \<times> effect_direction \<times> ustr \<times> ustr option \<times> int"

definition issue_findings :: "base_tables \<Rightarrow> int \<Rightarrow> effect_finding list" where
  "issue_findings db iid =
    [(rf_effect_value rf, rf_effect_direction rf, rf_description_ja rf,
      evidence_level rp, paper_id rp).
       rf \<leftarrow> research_findings db, rp \<leftarrow> research_papers db, rf_paper_id rf = paper_id rp,
       rf_issue_id rf = Some iid]"

definition category_keywords :: "(effect_category \<times> ustr list) list" where
  "category_keywords =
    [(caries_risk, [[40818, 34645], [12416, 12375, 27503], [34411, 27503], ascii ''caries'']),
     (periodontal_risk, [[27503, 21608, 30149], [27503, 21608, 28814], ascii ''periodontal'']),
     (tmj_risk, [[38990, 38306, 31680, 30151], ascii ''TMJ'', ascii ''temporomandibular'']),
     (mastication, [[21632, 22204], [21676, 21512], ascii ''chewing'', ascii ''mastication'']),
     (aesthetic, [[23529, 32654], [35211, 12383, 30446], ascii ''aesthetic'', ascii ''appearance'']),
     (pronunciation, [[30330, 38899], [27083, 38899], ascii ''speech'', ascii ''pronunciation'']),
     (trauma_risk, [[22806, 20663], ascii ''trauma''])]"

definition match_category :: "ustr \<Rightarrow> effect_category" where
  "match_category description =
    (case find (\<lambda>ck. list_ex (\<lambda>keyword. py_in keyword description) (snd ck)) category_keywords of
       Some ck \<Rightarrow> fst ck
     | None \<Rightarrow> other)"

text \<open>The dictionary \<^verbatim>\<open>categories\<close> keeps its keys in the order of their first
  insertion; it is an association list.\<close>

fun add_to_category ::
  "effect_category \<Rightarrow> effect_finding \<Rightarrow> (effect_category \<times> effect_finding list) list
     \<Rightarrow> (effect_category \<times> effect_finding list) list" where
  "add_to_category c f [] = [(c, [f])]"
| "add_to_category c f (e # es) =
     (if fst e = c then (fst e, snd e @ [f]) # es else e # add_to_category c f es)"

definition categorize_findings ::
  "effect_finding list \<Rightarrow> (effect_category \<times> effect_finding list) list" where
  "categorize_findings findings =
    foldl (\<lambda>categories f. add_to_category (match_category (fst (snd (snd f)))) f categories)
      [] findings"

text \<open>
  The loop over the findings of one category, with its accumulators: the total
  weight, the signed weighted effect, the provenance list and the three direction
  counters.
\<close>

record effect_acc =
  ea_total_weight :: real
  ea_weighted_effect :: real
  ea_paper_ids :: "ustr list"
  ea_increase :: nat
  ea_decrease :: nat
  ea_neutral :: nat

definition effect_acc0 :: effect_acc where
  "effect_acc0 =
    \<lparr>ea_total_weight = 0, ea_weighted_effect = 0, ea_paper_ids = [],
     ea_increase = 0, ea_decrease = 0, ea_neutral = 0\<rparr>"

definition count_direction :: "effect_direction \<Rightarrow> effect_acc \<Rightarrow> effect_acc" where
  "count_direction d a =
    (case d of
       increase \<Rightarrow> a\<lparr>ea_increase := ea_increase a + 1\<rparr>
     | decrease \<Rightarrow> a\<lparr>ea_decrease := ea_decrease a + 1\<rparr>
     | neutral \<Rightarrow> a\<lparr>ea_neutral := ea_neutral a + 1\<rparr>)"

definition effect_step :: "effect_acc \<Rightarrow> effect_finding \<Rightarrow> effect_acc" where
  "effect_step a f =
    (case f of (value, direction, description, level, pid) \<Rightarrow>
      let weight = get_evidence_level_weight level in
      if truthy value then
        (case value of
           None \<Rightarrow> a
         | Some effect_value \<Rightarrow>
             count_direction direction
               (a\<lparr>ea_weighted_effect :=
                    (case direction of
                       decrease \<Rightarrow> ea_weighted_effect a + effect_value * weight
                     | increase \<Rightarrow> ea_weighted_effect a - effect_value * weight
                     | neutral \<Rightarrow> ea_weighted_effect a),
                  ea_total_weight := ea_total_weight a + weight,
                  ea_paper_ids := ea_paper_ids a @ [str_int pid]\<rparr>))
      else a)"

definition category_effect ::
  "int \<Rightarrow> effect_category \<times> effect_finding list \<Rightarrow> treatment_effect list" where
  "category_effect iid cf =
    (let a = foldl effect_step effect_acc0 (snd cf) in
     if ea_total_weight a > 0 then
       (let avg_effect = ea_weighted_effect a / ea_total_weight a in
        [\<lparr>te_issue_id = iid, te_effect_category = fst cf,
          te_effect_value = \<bar>avg_effect\<bar>,
          te_effect_direction = (if ea_decrease a > ea_increase a then decrease else increase),
          te_calculated_from = join_comma (ea_paper_ids a),
          te_confidence_level = min (ea_total_weight a / real (length (snd cf))) 0.95\<rparr>])
     else [])"

text \<open>\<^verbatim>\<open>_generate_default_effects\<close>: the table is keyed by the Japanese issue name; the
  last entry (\<^verbatim>\<open>sonota\<close>, "other") is also the fallback of the lookup.\<close>

definition default_other :: "(effect_category \<times> real \<times> effect_direction) list" where
  "default_other = [(caries_risk, 30, decrease), (periodontal_risk, 25, decrease)]"

definition defaults :: "(ustr \<times> (effect_category \<times> real \<times> effect_direction) list) list" where
  "defaults =
    [([21474, 29983], [(caries_risk, 38, decrease), (periodontal_risk, 45, decrease)]),
     ([38283, 21676], [(caries_risk, 58, decrease), (pronunciation, 90, decrease)]),
     ([36942, 33995, 21676, 21512], [(trauma_risk, 65, decrease), (tmj_risk, 55, decrease)]),
     ([20132, 21449, 21676, 21512], [(tmj_risk, 85, decrease), (mastication, 40, decrease)]),
     ([19978, 38990, 21069, 31361], [(trauma_risk, 75, decrease), (aesthetic, 80, decrease)]),
     ([19979, 38990, 21069, 31361], [(mastication, 70, decrease), (pronunciation, 30, decrease)]),
     ([12381, 12398, 20182], default_other)]"

definition generate_default_effects :: "int \<Rightarrow> ustr \<Rightarrow> treatment_effect list" where
  "generate_default_effects iid issue_name =
    map (\<lambda>e. \<lparr>te_issue_id = iid, te_effect_category = fst e,
               te_effect_value = fst (snd e), te_effect_direction = snd (snd e),
               te_calculated_from = ascii ''default'', te_confidence_level = 0.5\<rparr>)
      (case map_of defaults issue_name of Some es \<Rightarrow> es | None \<Rightarrow> default_other)"

definition issue_effects :: "base_tables \<Rightarrow> dental_issue \<Rightarrow> treatment_effect list" where
  "issue_effects db di =
    (let findings = issue_findings db (issue_id di) in
     if findings \<noteq> [] then
       concat (map (category_effect (issue_id di)) (categorize_findings findings))
     else generate_default_effects (issue_id di) (issue_name_ja di))"

definition treatment_effect_rows :: "base_tables \<Rightarrow> treatment_effect list" where
  "treatment_effect_rows db = concat (map (issue_effects db) (dental_issues db))"

section \<open>Economic impacts\<close>

text \<open>\<^verbatim>\<open>generate_economic_impacts\<close>; \<^verbatim>\<open>int(future_savings)\<close> truncates a non-negative
  amount. The Japanese group name and calculation basis are left out of the row.\<close>

record economic_impact =
  ei_age_group_code :: ustr
  ei_age_min :: int
  ei_age_max :: int
  ei_current_cost :: int
  ei_future_savings :: int
  ei_roi :: real
  ei_confidence_level :: real

definition group_current_cost :: "ustr \<Rightarrow> int" where
  "group_current_cost group_code =
    (if group_code = ascii ''pediatric'' then 300000
     else if group_code = ascii ''adolescent'' then 350000
     else if group_code = ascii ''young_adult'' then 400000
     else if group_code = ascii ''adult'' then 450000
     else 500000)"

definition group_future_savings :: "ustr \<Rightarrow> real" where
  "group_future_savings group_code =
    (if group_code = ascii ''pediatric'' then real_of_int (group_current_cost group_code) * 5.0
     else if group_code = ascii ''adolescent'' then real_of_int (group_current_cost group_code) * 3.5
     else if group_code = ascii ''young_adult'' then real_of_int (group_current_cost group_code) * 2.25
     else if group_code = ascii ''adult'' then real_of_int (group_current_cost group_code) * 1.3
     else real_of_int (group_current_cost group_code) * 0.6)"

definition economic_impact_row :: "ustr \<times> int \<times> int \<Rightarrow> economic_impact" where
  "economic_impact_row g =
    (case g of (group_code, age_min, age_max) \<Rightarrow>
      (let current_cost = group_current_cost group_code;
           future_savings = group_future_savings group_code
       in \<lparr>ei_age_group_code = group_code, ei_age_min = age_min, ei_age_max = age_max,
            ei_current_cost = current_cost,
            ei_future_savings = \<lfloor>future_savings\<rfloor>,
            ei_roi = ((future_savings - real_of_int current_cost) / real_of_int current_cost) * 100,
            ei_confidence_level = 0.7\<rparr>))"

definition economic_impact_rows :: "economic_impact list" where
  "economic_impact_rows = map economic_impact_row timing_age_groups"

section \<open>Necessity score\<close>

text \<open>The five derived tables; each is rewritten as a whole by its generator.\<close>

record derived_tables =
  age_risk_profiles :: "age_risk_profile list"
  issue_treatment_effects :: "treatment_effect list"
  age_timing_benefits :: "timing_benefit list"
  future_scenarios :: "future_scenario list"
  economic_impacts :: "economic_impact list"

text \<open>The Japanese literals of the scorer, as code points: the message for an empty
  selection, the label "unknown", the error message, and the five interpretation
  texts with their urgency labels.\<close>

definition text_no_issues :: ustr where
  "text_no_issues =
    [21839, 38988, 12364, 36984, 25246, 12373, 12428, 12390, 12356, 12394, 12356,
     12383, 12417, 12289, 12473, 12467, 12450, 12434, 35336, 31639, 12391, 12365,
     12414, 12379, 12435, 12290]"

definition text_unknown :: ustr where
  "text_unknown =
    [19981, 26126]"

definition text_error :: ustr where
  "text_error =
    [35336, 31639, 12456, 12521, 12540, 12364, 30330, 29983, 12375, 12414, 12375,
     12383, 12290]"

definition text_urgent :: ustr where
  "text_urgent =
    [32202, 24613, 24615, 12398, 39640, 12356, 30703, 27491, 24517, 35201, 24615,
     12290, 26089, 24613, 12394, 23550, 24540, 12364, 24375, 12367, 25512, 22888,
     12373, 12428, 12414, 12377, 12290]"

definition label_urgent :: ustr where
  "label_urgent =
    [32202, 24613]"

definition text_high :: ustr where
  "text_high =
    [39640, 12356, 30703, 27491, 24517, 35201, 24615, 12290, 12391, 12365, 12427,
     12384, 12369, 26089, 12356, 23550, 24540, 12364, 26395, 12414, 12375, 12356,
     12391, 12377, 12290]"

definition label_high :: ustr where
  "label_high =
    [39640]"

definition text_moderate :: ustr where
  "text_moderate =
    [20013, 31243, 24230, 12398, 30703, 27491, 24517, 35201, 24615, 12290, 35336,
     30011, 30340, 12394, 23550, 24540, 12434, 26908, 35342, 12375, 12390, 12367,
     12384, 12373, 12356, 12290]"

definition label_moderate :: ustr where
  "label_moderate =
    [20013]"

definition text_low :: ustr where
  "text_low =
    [20302, 12316, 20013, 31243, 24230, 12398, 30703, 27491, 24517, 35201, 24615,
     12290, 23450, 26399, 30340, 12394, 32076, 36942, 35251, 23519, 12434, 12362,
     21223, 12417, 12375, 12414, 12377, 12290]"

definition label_low :: ustr where
  "label_low =
    [20302]"

definition text_minimal :: ustr where
  "text_minimal =
    [29694, 26178, 28857, 12391, 12398, 30703, 27491, 24517, 35201, 24615, 12399,
     20302, 12356, 12391, 12377, 12364, 12289, 23450, 26399, 30340, 12394, 35413,
     20385, 12434, 12362, 21223, 12417, 12375, 12414, 12377, 12290]"

definition label_minimal :: ustr where
  "label_minimal =
    [26368, 23567]"

record necessity_score =
  ns_total_score :: int
  ns_timing_score :: int
  ns_severity_score :: int
  ns_risk_score :: int
  ns_interpretation :: ustr
  ns_urgency :: ustr

datatype py_error = TypeError | StoreError

text \<open>\<^verbatim>\<open>round\<close> with one argument: to the nearest integer, a tie to the even one.\<close>

definition py_round :: "real \<Rightarrow> int" where
  "py_round x =
    (let f = \<lfloor>x\<rfloor>; d = x - real_of_int f in
     if d < 1 / 2 then f
     else if 1 / 2 < d then f + 1
     else if even f then f else f + 1)"

text \<open>\<^verbatim>\<open>_calculate_timing_score\<close>: \<^verbatim>\<open>fetchone\<close> takes the first row whose range holds
  the age.\<close>

definition calculate_timing_score :: "timing_benefit list \<Rightarrow> int \<Rightarrow> real" where
  "calculate_timing_score tbl age =
    (case filter (\<lambda>r. tb_age_min r \<le> age \<and> tb_age_max r \<ge> age) tbl of
       r # _ \<Rightarrow> (tb_timing_score r / 100) * 35
     | [] \<Rightarrow>
        if age \<le> 12 then 35
        else if age \<le> 18 then 30
        else if age \<le> 25 then 25
        else if age \<le> 40 then 20
        else if age \<le> 60 then 15
        else 10)"

text \<open>
  \<^verbatim>\<open>_calculate_severity_score\<close>. The query returns the rows of \<^verbatim>\<open>dental_issues\<close>
  whose id is in the list. A NULL severity makes \<^verbatim>\<open>max\<close>, \<^verbatim>\<open>sorted\<close> or the division
  raise \<^verbatim>\<open>TypeError\<close>.
\<close>

fun all_some :: "'a option list \<Rightarrow> 'a list option" where
  "all_some [] = Some []"
| "all_some (None # xs) = None"
| "all_some (Some x # xs) = (case all_some xs of None \<Rightarrow> None | Some ys \<Rightarrow> Some (x # ys))"

definition calculate_severity_score :: "base_tables \<Rightarrow> int list \<Rightarrow> py_error + real" where
  "calculate_severity_score db issue_ids =
    (if issue_ids = [] then Inr 0
     else
       (let results = [severity_base_score di. di \<leftarrow> dental_issues db, issue_id di \<in> set issue_ids] in
        if results = [] then Inr 0
        else
          (case all_some results of
             None \<Rightarrow> Inl TypeError
           | Some [] \<Rightarrow> Inr 0
           | Some (score # scores) \<Rightarrow>
               (let issue_scores = score # scores;
                    primary_issue_score = fold max scores score in
                if length issue_scores > 1 then
                  (let secondary_issues_score = sum_list (butlast (sort issue_scores)) * 0.5 in
                   Inr (min 40 ((primary_issue_score + secondary_issues_score) / 100 * 40)))
                else Inr (primary_issue_score / 100 * 40)))))"

text \<open>\<^verbatim>\<open>_calculate_risk_score\<close>: the row with the least threshold that is at least the
  age (\<^verbatim>\<open>ORDER BY age_threshold LIMIT 1\<close>), the first such row of the table.\<close>

definition next_threshold :: "age_risk_profile list \<Rightarrow> int \<Rightarrow> age_risk_profile option" where
  "next_threshold tbl age =
    (case filter (\<lambda>r. arp_age_threshold r \<ge> age) tbl of
       [] \<Rightarrow> None
     | r # rs \<Rightarrow>
        Some (foldl (\<lambda>m x. if arp_age_threshold x < arp_age_threshold m then x else m) r rs))"

definition calculate_risk_score :: "age_risk_profile list \<Rightarrow> int \<Rightarrow> int list \<Rightarrow> real" where
  "calculate_risk_score tbl age issue_ids =
    (case next_threshold tbl age of
       None \<Rightarrow> 0
     | Some r \<Rightarrow>
        (let years_until = arp_age_threshold r - age;
             urgency_factor = max 0 (1 - real_of_int years_until / 15);
             problem_factor = min 1.5 (1 + (real (length issue_ids) - 1) * 0.1)
         in urgency_factor * (arp_risk_value r / 60) * problem_factor * 35))"

definition interpret_necessity_score :: "real \<Rightarrow> ustr \<times> ustr" where
  "interpret_necessity_score total_score =
    (if total_score \<ge> 85 then (text_urgent, label_urgent)
     else if total_score \<ge> 70 then (text_high, label_high)
     else if total_score \<ge> 50 then (text_moderate, label_moderate)
     else if total_score \<ge> 30 then (text_low, label_low)
     else (text_minimal, label_minimal))"

text \<open>The two adjustments and the clamp, on the sum of the three sub-scores.\<close>

definition adjusted_total :: "int \<Rightarrow> nat \<Rightarrow> real \<Rightarrow> real" where
  "adjusted_total age n total_score =
    (let total_score1 = (if age \<le> 18 then total_score + real_of_int (max 0 (18 - age)) * 0.5 else total_score);
         total_score2 = (if 35 \<le> age \<and> age \<le> 55 \<and> n \<ge> 2 then total_score1 + (real n - 1) * 2 else total_score1)
     in max 10 (min 100 total_score2))"

text \<open>The body of the \<^verbatim>\<open>try\<close> block, and the function with its handler: any exception
  is replaced by the fixed neutral result.\<close>

definition necessity_body ::
  "base_tables \<Rightarrow> derived_tables \<Rightarrow> int \<Rightarrow> int list \<Rightarrow> py_error + necessity_score" where
  "necessity_body db dt age issue_ids =
    (if issue_ids = [] then
       Inr \<lparr>ns_total_score = 0, ns_timing_score = 0, ns_severity_score = 0, ns_risk_score = 0,
            ns_interpretation = text_no_issues, ns_urgency = text_unknown\<rparr>
     else
       (let timing = calculate_timing_score (age_timing_benefits dt) age in
        case calculate_severity_score db issue_ids of
          Inl e \<Rightarrow> Inl e
        | Inr severity \<Rightarrow>
            (let risk = calculate_risk_score (age_risk_profiles dt) age issue_ids;
                 total_score = adjusted_total age (length issue_ids) (timing + severity + risk);
                 iu = interpret_necessity_score total_score
             in Inr \<lparr>ns_total_score = py_round total_score, ns_timing_score = py_round timing,
                     ns_severity_score = py_round severity, ns_risk_score = py_round risk,
                     ns_interpretation = fst iu, ns_urgency = snd iu\<rparr>)))"

definition calculate_ortho_necessity_score ::
  "base_tables \<Rightarrow> derived_tables \<Rightarrow> int \<Rightarrow> int list \<Rightarrow> necessity_score" where
  "calculate_ortho_necessity_score db dt age issue_ids =
    (case necessity_body db dt age issue_ids of
       Inr result \<Rightarrow> result
     | Inl e \<Rightarrow>
        \<lparr>ns_total_score = 50, ns_timing_score = 20, ns_severity_score = 20, ns_risk_score = 10,
         ns_interpretation = text_error, ns_urgency = text_unknown\<rparr>)"

section \<open>The record store and the generators\<close>

text \<open>
  The SQLite connection, as far as the derived tables go: the committed contents,
  the contents as seen inside the open transaction, and a fault plan. A write
  statement (\<^verbatim>\<open>DELETE\<close> or \<^verbatim>\<open>INSERT\<close>) opens a transaction implicitly;
  \<^verbatim>\<open>commit\<close> makes the pending contents the committed ones and \<^verbatim>\<open>rollback\<close> discards
  them. \<open>fault = Some n\<close> lets \<open>n\<close> more write statements succeed and makes the
  next one raise, without effect on the tables; \<open>fault = None\<close> is a store that
  does not fail.
\<close>

record store =
  committed :: derived_tables
  pending :: derived_tables
  fault :: "nat option"

definition execute_write ::
  "(derived_tables \<Rightarrow> derived_tables) \<Rightarrow> store \<Rightarrow> (py_error + unit) \<times> store" where
  "execute_write f s =
    (case fault s of
       None \<Rightarrow> (Inr (), s\<lparr>pending := f (pending s)\<rparr>)
     | Some 0 \<Rightarrow> (Inl StoreError, s)
     | Some (Suc n) \<Rightarrow> (Inr (), s\<lparr>pending := f (pending s), fault := Some n\<rparr>))"

definition commit :: "store \<Rightarrow> store" where
  "commit s = s\<lparr>committed := pending s\<rparr>"

definition rollback :: "store \<Rightarrow> store" where
  "rollback s = s\<lparr>pending := committed s\<rparr>"

text \<open>The loop \<^verbatim>\<open>for row in rows: cursor.execute("INSERT ...")\<close>; an exception leaves it.\<close>

fun insert_rows ::
  "('r \<Rightarrow> derived_tables \<Rightarrow> derived_tables) \<Rightarrow> 'r list \<Rightarrow> store \<Rightarrow> (py_error + unit) \<times> store" where
  "insert_rows ins [] s = (Inr (), s)"
| "insert_rows ins (r # rs) s =
     (case execute_write (ins r) s of
        (Inl e, s') \<Rightarrow> (Inl e, s')
      | (Inr u, s') \<Rightarrow> insert_rows ins rs s')"

text \<open>
  The five generators have one shape: inside \<^verbatim>\<open>try\<close>, clear the table, compute the
  rows from the base tables, insert them one by one, commit and return the rows;
  the handler rolls back and raises again.
\<close>

definition regenerate ::
  "(derived_tables \<Rightarrow> derived_tables) \<Rightarrow> ('r \<Rightarrow> derived_tables \<Rightarrow> derived_tables) \<Rightarrow> 'r list
     \<Rightarrow> store \<Rightarrow> (py_error + 'r list) \<times> store" where
  "regenerate clear ins rows s =
    (case execute_write clear s of
       (Inl e, s1) \<Rightarrow> (Inl e, rollback s1)
     | (Inr u, s1) \<Rightarrow>
        (case insert_rows ins rows s1 of
           (Inl e, s2) \<Rightarrow> (Inl e, rollback s2)
         | (Inr u, s2) \<Rightarrow> (Inr rows, commit s2)))"

definition generate_age_risk_profiles ::
  "(real \<Rightarrow> ustr) \<Rightarrow> base_tables \<Rightarrow> store \<Rightarrow> (py_error + age_risk_profile list) \<times> store" where
  "generate_age_risk_profiles str_float db =
    regenerate (\<lambda>t. t\<lparr>age_risk_profiles := []\<rparr>)
      (\<lambda>r t. t\<lparr>age_risk_profiles := age_risk_profiles t @ [r]\<rparr>)
      (age_risk_profile_rows str_float db)"

definition generate_issue_treatment_effects ::
  "base_tables \<Rightarrow> store \<Rightarrow> (py_error + treatment_effect list) \<times> store" where
  "generate_issue_treatment_effects db =
    regenerate (\<lambda>t. t\<lparr>issue_treatment_effects := []\<rparr>)
      (\<lambda>r t. t\<lparr>issue_treatment_effects := issue_treatment_effects t @ [r]\<rparr>)
      (treatment_effect_rows db)"

definition generate_age_timing_benefits ::
  "base_tables \<Rightarrow> store \<Rightarrow> (py_error + timing_benefit list) \<times> store" where
  "generate_age_timing_benefits db =
    regenerate (\<lambda>t. t\<lparr>age_timing_benefits := []\<rparr>)
      (\<lambda>r t. t\<lparr>age_timing_benefits := age_timing_benefits t @ [r]\<rparr>)
      (timing_benefit_rows db)"

definition generate_future_scenarios ::
  "store \<Rightarrow> (py_error + future_scenario list) \<times> store" where
  "generate_future_scenarios =
    regenerate (\<lambda>t. t\<lparr>future_scenarios := []\<rparr>)
      (\<lambda>r t. t\<lparr>future_scenarios := future_scenarios t @ [r]\<rparr>)
      future_scenario_rows"

definition generate_economic_impacts ::
  "store \<Rightarrow> (py_error + economic_impact list) \<times> store" where
  "generate_economic_impacts =
    regenerate (\<lambda>t. t\<lparr>economic_impacts := []\<rparr>)
      (\<lambda>r t. t\<lparr>economic_impacts := economic_impacts t @ [r]\<rparr>)
      economic_impact_rows"

record evidence_summary =
  risk_profiles_count :: nat
  treatment_effects_count :: nat
  timing_benefits_count :: nat
  scenarios_count :: nat
  economic_impacts_count :: nat

text \<open>\<^verbatim>\<open>generate_all_evidence_data\<close>: the five generators in order, a commit, the
  summary; the handler rolls back and raises again.\<close>

definition generate_all_evidence_data ::
  "(real \<Rightarrow> ustr) \<Rightarrow> base_tables \<Rightarrow> store \<Rightarrow> (py_error + evidence_summary) \<times> store" where
  "generate_all_evidence_data str_float db s =
    (case generate_age_risk_profiles str_float db s of
       (Inl e, s1) \<Rightarrow> (Inl e, rollback s1)
     | (Inr risk_profiles, s1) \<Rightarrow>
    (case generate_issue_treatment_effects db s1 of
       (Inl e, s2) \<Rightarrow> (Inl e, rollback s2)
     | (Inr treatment_effects, s2) \<Rightarrow>
    (case generate_age_timing_benefits db s2 of
       (Inl e, s3) \<Rightarrow> (Inl e, rollback s3)
     | (Inr timing_benefits, s3) \<Rightarrow>
    (case generate_future_scenarios s3 of
       (Inl e, s4) \<Rightarrow> (Inl e, rollback s4)
     | (Inr scenarios, s4) \<Rightarrow>
    (case generate_economic_impacts s4 of
       (Inl e, s5) \<Rightarrow> (Inl e, rollback s5)
     | (Inr impacts, s5) \<Rightarrow>
        (Inr \<lparr>risk_profiles_count = length risk_profiles,
              treatment_effects_count = length treatment_effects,
              timing_benefits_count = length timing_benefits,
              scenarios_count = length scenarios,
              economic_impacts_count = length impacts\<rparr>,
         commit s5))))))"

text \<open>The tables after the first \<open>k\<close> generators have run to their commit.\<close>

definition regenerated_prefix ::
  "(real \<Rightarrow> ustr) \<Rightarrow> base_tables \<Rightarrow> nat \<Rightarrow> derived_tables \<Rightarrow> derived_tables" where
  "regenerated_prefix str_float db k t =
    \<lparr>age_risk_profiles =
       (if 1 \<le> k then age_risk_profile_rows str_float db else age_risk_profiles t),
     issue_treatment_effects =
       (if 2 \<le> k then treatment_effect_rows db else issue_treatment_effects t),
     age_timing_benefits =
       (if 3 \<le> k then timing_benefit_rows db else age_timing_benefits t),
     future_scenarios = (if 4 \<le> k then future_scenario_rows else future_scenarios t),
     economic_impacts = (if 5 \<le> k then economic_impact_rows else economic_impacts t)\<rparr>"

definition empty_tables :: derived_tables where
  "empty_tables =
    \<lparr>age_risk_profiles = [], issue_treatment_effects = [], age_timing_benefits = [],
     future_scenarios = [], economic_impacts = []\<rparr>"

section \<open>Auxiliary notions for the properties\<close>

text \<open>Replacing an extracted value of exactly 0 by an absent value, in a finding and
  in every finding of the database; the same on the rows of the per-issue query and
  on the categories built from them.\<close>

definition drop_zero :: "real option \<Rightarrow> real option" where
  "drop_zero v = (if v = Some 0 then None else v)"

definition drop_zero_value :: "research_finding \<Rightarrow> research_finding" where
  "drop_zero_value rf = rf\<lparr>rf_effect_value := drop_zero (rf_effect_value rf)\<rparr>"

definition drop_zero_values :: "base_tables \<Rightarrow> base_tables" where
  "drop_zero_values db = db\<lparr>research_findings := map drop_zero_value (research_findings db)\<rparr>"

definition drop5 :: "effect_finding \<Rightarrow> effect_finding" where
  "drop5 f = (drop_zero (fst f), snd f)"

definition drop_cats ::
  "(effect_category \<times> effect_finding list) list
     \<Rightarrow> (effect_category \<times> effect_finding list) list" where
  "drop_cats cs = map (\<lambda>e. (fst e, map drop5 (snd e))) cs"

text \<open>The contribution of one fetched finding to the total weight and to the weighted
  sum of the risk loop, and the values that contribute (present and not 0).\<close>

definition finding_weight :: "real option \<times> ustr option \<Rightarrow> real" where
  "finding_weight p = (if truthy (fst p) then get_evidence_level_weight (snd p) else 0)"

definition finding_product :: "real option \<times> ustr option \<Rightarrow> real" where
  "finding_product p =
    (case fst p of None \<Rightarrow> 0 | Some v \<Rightarrow> v * get_evidence_level_weight (snd p))"

definition contributing_values :: "(real option \<times> ustr option) list \<Rightarrow> real list" where
  "contributing_values fs = [v. p \<leftarrow> fs, v \<leftarrow> (case fst p of None \<Rightarrow> [] | Some v \<Rightarrow> [v]), v \<noteq> 0]"

text \<open>The category of a row of the per-issue query, the papers of the rows of one
  category whose value contributes (present and not 0), in query order, and the rows
  of one category, if any.\<close>

definition finding_category :: "effect_finding \<Rightarrow> effect_category" where
  "finding_category f = match_category (fst (snd (snd f)))"

definition contributing_papers :: "base_tables \<Rightarrow> int \<Rightarrow> effect_category \<Rightarrow> int list" where
  "contributing_papers db iid c =
    [snd (snd (snd (snd f))). f \<leftarrow> issue_findings db iid, finding_category f = c,
       truthy (fst f)]"

definition group_of :: "effect_finding list \<Rightarrow> effect_category \<Rightarrow> effect_finding list option" where
  "group_of fs c =
    (if filter (\<lambda>f. finding_category f = c) fs = [] then None
     else Some (filter (\<lambda>f. finding_category f = c) fs))"

text \<open>The characters of a comma-joined list of integers: comma, minus sign, digits.\<close>

definition id_char :: "nat \<Rightarrow> bool" where
  "id_char c = (c = 44 \<or> c = 45 \<or> (48 \<le> c \<and> c \<le> 57))"

text \<open>
  The patterns of the text extractor in the words of the specification. A text of the
  pattern \<^verbatim>\<open>\d+\.?\d*\<close> is a non-empty run of digits, alone or followed by a full stop
  and a run of digits; its group holds the digit values before and after the full
  stop. The pattern \<open>n\<close>\<^verbatim>\<open>X\<close> occurs at position \<open>k\<close> of a text when such a text
  starts there and the sign \<^verbatim>\<open>X\<close> follows it; the first pattern is the one at the least
  such position. A keyword is present when it is a contiguous piece of the text.
\<close>

definition number_group :: "ustr \<Rightarrow> nat list \<times> nat list \<Rightarrow> bool" where
  "number_group t g =
    (\<exists>a c. a \<noteq> [] \<and> map digit_value a = map Some (fst g)
       \<and> map digit_value c = map Some (snd g)
       \<and> (t = a \<and> c = [] \<or> t = a @ 46 # c))"

definition pattern_at :: "nat \<Rightarrow> ustr \<Rightarrow> nat \<Rightarrow> nat list \<times> nat list \<Rightarrow> bool" where
  "pattern_at x s k g = (\<exists>t post. drop k s = t @ x # post \<and> number_group t g)"

definition has_pattern :: "nat \<Rightarrow> ustr \<Rightarrow> bool" where
  "has_pattern x s = (\<exists>k g. pattern_at x s k g)"

definition first_pattern :: "nat \<Rightarrow> ustr \<Rightarrow> nat list \<times> nat list \<Rightarrow> bool" where
  "first_pattern x s g = (\<exists>k. pattern_at x s k g \<and> (\<forall>j<k. \<forall>h. \<not> pattern_at x s j h))"

definition contains_text :: "ustr \<Rightarrow> ustr \<Rightarrow> bool" where
  "contains_text kw s = (\<exists>pre post. s = pre @ kw @ post)"

section \<open>Sample inputs\<close>

text \<open>
  A small database: two papers of tiers \<^verbatim>\<open>1a\<close> and \<^verbatim>\<open>5\<close>, one dental issue
  (crowding, base severity 80) and two findings on it. The first finding is the
  text "caries risk up 42% after five years" for children; the second is the
  multiplier text "1x", whose extracted value is 0.
\<close>

definition sample_text_42 :: ustr where
  "sample_text_42 =
    [53, 24180, 24460, 40818, 34645, 12522, 12473, 12463, 52, 50, 37, 19978, 26119]"

definition sample_text_bai :: ustr where
  "sample_text_bai = [12522, 12473, 12463, 50, 46, 53, 20493]"

definition sample_db :: base_tables where
  "sample_db =
    \<lparr>research_papers =
       [\<lparr>paper_id = 1, evidence_level = Some (ascii ''1a'')\<rparr>,
        \<lparr>paper_id = 2, evidence_level = Some (ascii ''5'')\<rparr>],
     dental_issues =
       [\<lparr>issue_id = 1, issue_name_ja = [21474, 29983], severity_base_score = Some 80\<rparr>],
     research_findings =
       [\<lparr>rf_paper_id = 1, rf_issue_id = Some 1, rf_finding_type = ascii ''risk'',
         rf_description_ja = sample_text_42, rf_effect_value = Some 42,
         rf_effect_direction = increase, rf_applies_to_age_min = 3,
         rf_applies_to_age_max = 12\<rparr>,
        \<lparr>rf_paper_id = 2, rf_issue_id = Some 1, rf_finding_type = ascii ''risk'',
         rf_description_ja = [49, 20493], rf_effect_value = Some 0,
         rf_effect_direction = increase, rf_applies_to_age_min = 1,
         rf_applies_to_age_max = 100\<rparr>]\<rparr>"

text \<open>
  Python's \<^verbatim>\<open>str\<close> on a float of integral value (below \<open>10^16\<close>): the digits and
  \<^verbatim>\<open>.0\<close>. A database with one tier-\<^verbatim>\<open>1a\<close> paper and the finding "risk 2.5x" for all
  ages, whose extracted value is 150; and the empty database.
\<close>

definition sample_str_float :: "real \<Rightarrow> ustr" where
  "sample_str_float x = str_int \<lfloor>x\<rfloor> @ ascii ''.0''"

definition sample_db_bai :: base_tables where
  "sample_db_bai =
    \<lparr>research_papers = [\<lparr>paper_id = 7, evidence_level = Some (ascii ''1a'')\<rparr>],
     dental_issues =
       [\<lparr>issue_id = 1, issue_name_ja = [21474, 29983], severity_base_score = Some 80\<rparr>],
     research_findings =
       [\<lparr>rf_paper_id = 7, rf_issue_id = Some 1, rf_finding_type = ascii ''risk'',
         rf_description_ja = [12522, 12473, 12463, 50, 46, 53, 20493],
         rf_effect_value = Some 150,
         rf_effect_direction = increase, rf_applies_to_age_min = 1,
         rf_applies_to_age_max = 100\<rparr>]\<rparr>"

definition empty_db :: base_tables where
  "empty_db = \<lparr>research_papers = [], dental_issues = [], research_findings = []\<rparr>"

text \<open>A database whose only dental issue has no base severity (NULL).\<close>

definition sample_db_null :: base_tables where
  "sample_db_null =
    \<lparr>research_papers = [],
     dental_issues =
       [\<lparr>issue_id = 1, issue_name_ja = [21474, 29983], severity_base_score = None\<rparr>],
     research_findings = []\<rparr>"

text \<open>Two stores with empty derived tables and no open transaction: one whose tenth
  write statement raises, and one that does not fail.\<close>

definition failing_store :: store where
  "failing_store = \<lparr>committed = empty_tables, pending = empty_tables, fault = Some 9\<rparr>"

definition sound_store :: store where
  "sound_store = \<lparr>committed = empty_tables, pending = empty_tables, fault = None\<rparr>"

section \<open>Properties\<close>

lemma ascii_simps:
  "ascii [] = []"
  "ascii (c # cs) = of_char c # ascii cs"
  by (simp_all add: ascii_def)

subsection \<open>Timing-benefit confidence\<close>

text \<open>
  C7, as stated, says that the stored confidence of each of the five timing
  buckets is \<open>min(0.5 + n/20, 0.95)\<close> for \<open>n > 0\<close> overlapping findings and 0.7 for
  none, and that 0.7 is strictly above the value for every \<open>n\<close> from 1 to 4. The
  last part fails at \<open>n = 4\<close>, where the formula gives 0.5 + 4/20 = 0.7 as well.
\<close>

theorem timing_confidence_tie_at_four:
  "\<not> (timing_confidence 0 > timing_confidence 4)"
  by (simp add: timing_confidence_def)

text \<open>
  C7, amended: the generator writes the five buckets; each row's confidence is
  \<open>min(0.5 + n/20, 0.95)\<close> when the number \<open>n\<close> of findings (joined with their
  paper) whose age range meets the bucket is positive, and 0.7 when it is zero; no
  evidence gives a strictly higher confidence than one, two or three findings, and
  the same confidence as four.
\<close>

theorem timing_benefit_confidence:
  "map (\<lambda>r. (tb_age_min r, tb_age_max r)) (timing_benefit_rows db)
     = [(7, 12), (13, 18), (19, 35), (36, 60), (61, 100)]
   \<and> list_all (\<lambda>r. tb_confidence_level r =
         (let n = evidence_count db (tb_age_min r) (tb_age_max r) in
          if n > 0 then min (0.5 + real n / 20) 0.95 else 0.7))
        (timing_benefit_rows db)
   \<and> timing_confidence 1 < timing_confidence 0
   \<and> timing_confidence 2 < timing_confidence 0
   \<and> timing_confidence 3 < timing_confidence 0
   \<and> timing_confidence 4 = timing_confidence 0"
  by (simp add: timing_benefit_rows_def timing_age_groups_def timing_benefit_row_def
      timing_confidence_def Let_def)

theorem timing_benefit_confidence_witness:
  "map tb_confidence_level (timing_benefit_rows sample_db) = [0.6, 0.55, 0.55, 0.55, 0.55]"
  using timing_benefit_confidence [of sample_db]
  by (simp add: timing_benefit_rows_def timing_age_groups_def timing_benefit_row_def
      timing_confidence_def evidence_count_def sample_db_def)

subsection \<open>Empty selection\<close>

text \<open>
  C8: for every age and every state of the tables, the necessity score of an empty
  list of conditions is the result with total 0, the three sub-scores 0, the
  message "no problem is selected, so the score cannot be computed" and urgency
  "unknown". The body returns it before any table is read, so no exception can
  arise and the handler is not entered.
\<close>

theorem empty_selection_score:
  "calculate_ortho_necessity_score db dt age [] =
     \<lparr>ns_total_score = 0, ns_timing_score = 0, ns_severity_score = 0, ns_risk_score = 0,
      ns_interpretation = text_no_issues, ns_urgency = text_unknown\<rparr>
   \<and> necessity_body db dt age [] = Inr (calculate_ortho_necessity_score db dt age [])"
  by (simp add: calculate_ortho_necessity_score_def necessity_body_def)

theorem empty_selection_score_witness:
  "ns_total_score (calculate_ortho_necessity_score sample_db empty_tables 30 []) = 0
   \<and> ns_interpretation (calculate_ortho_necessity_score sample_db empty_tables 30 [])
       = text_no_issues"
  using empty_selection_score [of sample_db empty_tables 30] by simp

subsection \<open>Future-scenario confidence\<close>

text \<open>
  C9: the generator writes nine rows, the three age groups for each of the time
  frames 5, 10 and 20 years; every row has confidence \<open>0.8 - years/50\<close>, that is
  0.7, 0.6 and 0.4; the confidence strictly decreases with the years and is not
  clamped (it is 0 at 40 years and negative at 50).
\<close>

theorem future_scenario_confidence_decay:
  "length future_scenario_rows = 9
   \<and> list_all (\<lambda>r. fs_confidence_level r = 0.8 - real_of_int (fs_timeframe_years r) / 50)
        future_scenario_rows
   \<and> map (\<lambda>r. (fs_timeframe_years r, fs_applies_to_age_min r, fs_applies_to_age_max r,
                fs_confidence_level r)) future_scenario_rows
      = [(5, 7, 18, 0.7), (5, 19, 40, 0.7), (5, 41, 100, 0.7),
         (10, 7, 18, 0.6), (10, 19, 40, 0.6), (10, 41, 100, 0.6),
         (20, 7, 18, 0.4), (20, 19, 40, 0.4), (20, 41, 100, 0.4)]
   \<and> (\<forall>y1 y2. y1 < y2 \<longrightarrow> scenario_confidence y2 < scenario_confidence y1)
   \<and> scenario_confidence 40 = 0 \<and> scenario_confidence 50 < 0"
  by (simp add: future_scenario_rows_def timeframes_def scenario_age_groups_def
      scenario_confidence_def)

theorem future_scenario_confidence_decay_witness:
  "scenario_confidence 20 < scenario_confidence 10
   \<and> scenario_confidence 10 < scenario_confidence 5"
  using future_scenario_confidence_decay by simp

subsection \<open>A value of zero is an absent value\<close>

lemma concat_map_map: "concat (map (\<lambda>x. map g (F x)) xs) = map g (concat (map F xs))"
  by (induction xs) auto

lemma risk_findings_drop:
  "risk_findings (drop_zero_values db) t =
     map (\<lambda>p. (drop_zero (fst p), snd p)) (risk_findings db t)"
proof -
  have "risk_findings (drop_zero_values db) t =
     concat (map (\<lambda>rf. map (\<lambda>p. (drop_zero (fst p), snd p))
        [(rf_effect_value rf, evidence_level rp).
          rp \<leftarrow> research_papers db, rf_paper_id rf = paper_id rp,
          di \<leftarrow> dental_issues db, rf_issue_id rf = Some (issue_id di),
          rf_finding_type rf = ascii ''risk'',
          rf_effect_direction rf = increase,
          rf_applies_to_age_max rf \<ge> t]) (research_findings db))"
    unfolding risk_findings_def drop_zero_values_def
    by (simp add: drop_zero_value_def comp_def map_concat if_distrib [of "map f" for f]
          cong: if_cong)
  also have "\<dots> = map (\<lambda>p. (drop_zero (fst p), snd p)) (risk_findings db t)"
    unfolding risk_findings_def by (rule concat_map_map)
  finally show ?thesis .
qed

lemma risk_loop_drop:
  "risk_loop f (map (\<lambda>p. (drop_zero (fst p), snd p)) fs) tw wr ids = risk_loop f fs tw wr ids"
  by (induction fs arbitrary: tw wr ids) (auto simp: drop_zero_def Let_def split: option.splits)

lemma age_risk_profile_at_drop:
  "age_risk_profile_at f (drop_zero_values db) t = age_risk_profile_at f db t"
  by (simp add: age_risk_profile_at_def profile_from_findings_def risk_findings_drop
        risk_loop_drop split: prod.splits)

lemma age_risk_rows_drop:
  "age_risk_profile_rows f (drop_zero_values db) = age_risk_profile_rows f db"
  by (simp add: age_risk_profile_rows_def age_risk_profile_at_drop cong: map_cong)


lemma issue_findings_drop:
  "issue_findings (drop_zero_values db) iid = map drop5 (issue_findings db iid)"
proof -
  have "issue_findings (drop_zero_values db) iid =
     concat (map (\<lambda>rf. map drop5
        [(rf_effect_value rf, rf_effect_direction rf, rf_description_ja rf,
          evidence_level rp, paper_id rp).
          rp \<leftarrow> research_papers db, rf_paper_id rf = paper_id rp,
          rf_issue_id rf = Some iid]) (research_findings db))"
    unfolding issue_findings_def drop_zero_values_def
    by (simp add: drop_zero_value_def drop5_def comp_def map_concat
          if_distrib [of "map f" for f] cong: if_cong)
  also have "\<dots> = map drop5 (issue_findings db iid)"
    unfolding issue_findings_def by (rule concat_map_map)
  finally show ?thesis .
qed

lemma effect_step_drop: "effect_step a (drop5 f) = effect_step a f"
  by (cases f) (auto simp: effect_step_def drop5_def drop_zero_def truthy_def Let_def
      split: option.splits)

lemma foldl_effect_step_drop:
  "foldl effect_step a (map drop5 fs) = foldl effect_step a fs"
  by (induction fs arbitrary: a) (simp_all add: effect_step_drop)

lemma add_to_category_drop:
  "add_to_category c (drop5 f) (drop_cats es) = drop_cats (add_to_category c f es)"
  by (induction es) (simp_all add: drop_cats_def)

lemma description_drop5: "fst (snd (snd (drop5 f))) = fst (snd (snd f))"
  by (simp add: drop5_def)

lemma categorize_foldl_drop:
  "foldl (\<lambda>categories f. add_to_category (match_category (fst (snd (snd f)))) f categories)
      (drop_cats acc) (map drop5 fs)
   = drop_cats (foldl (\<lambda>categories f.
        add_to_category (match_category (fst (snd (snd f)))) f categories) acc fs)"
  by (induction fs arbitrary: acc) (simp_all add: description_drop5 add_to_category_drop)

lemma categorize_findings_drop:
  "categorize_findings (map drop5 fs) = drop_cats (categorize_findings fs)"
  using categorize_foldl_drop [of "[]" fs] by (simp add: categorize_findings_def drop_cats_def)

lemma category_effect_drop:
  "category_effect iid (fst e, map drop5 (snd e)) = category_effect iid e"
  by (simp add: category_effect_def foldl_effect_step_drop Let_def)

lemma issue_effects_drop: "issue_effects (drop_zero_values db) di = issue_effects db di"
  by (simp add: issue_effects_def issue_findings_drop categorize_findings_drop drop_cats_def
      comp_def category_effect_drop Let_def)

lemma treatment_effect_rows_drop:
  "treatment_effect_rows (drop_zero_values db) = treatment_effect_rows db"
proof -
  have "dental_issues (drop_zero_values db) = dental_issues db"
    by (simp add: drop_zero_values_def)
  then show ?thesis
    by (simp add: treatment_effect_rows_def issue_effects_drop cong: map_cong)
qed


text \<open>
  C10: in the per-threshold risk aggregation and in the per-condition effect
  aggregation a finding whose extracted value is exactly 0 is treated as one whose
  value is absent. Replacing every such value by NULL changes no row of either
  table; one step of either loop leaves all accumulators (weighted sum, total
  weight, provenance list and, per condition, the direction counters) as they are,
  for a value of 0 as for an absent one. The multiplier text "1x" is such a
  finding: its value is 1 * 100 - 100 = 0, its direction \<open>increase\<close>.
\<close>

theorem zero_value_treated_as_absent:
  "age_risk_profile_rows str_float (drop_zero_values db) = age_risk_profile_rows str_float db
   \<and> treatment_effect_rows (drop_zero_values db) = treatment_effect_rows db
   \<and> risk_loop str_float ((Some 0, level) # findings) tw wr ids
       = risk_loop str_float findings tw wr ids
   \<and> risk_loop str_float ((None, level) # findings) tw wr ids
       = risk_loop str_float findings tw wr ids
   \<and> effect_step a (Some 0, d, description, level, pid) = a
   \<and> effect_step a (None, d, description, level, pid) = a
   \<and> parse_risk_description [49, 20493] = (Some 0, increase)"
proof -
  have "parse_risk_description [49, 20493] = (Some 0, increase)"
    by (simp add: parse_risk_description_def parse_effect_value_def
        parse_effect_direction_def match_number_at_def digit_value_def decimal_blocks_def
        percent_sign_def bai_def kw_increase_def kw_decrease_def float_of_group_def
        decimal_number_def)
  then show ?thesis
    by (simp add: age_risk_rows_drop treatment_effect_rows_drop effect_step_def truthy_def
        Let_def)
qed

theorem zero_value_treated_as_absent_witness:
  "drop_zero_values sample_db \<noteq> sample_db
   \<and> age_risk_profile_rows (\<lambda>x. []) (drop_zero_values sample_db)
       = age_risk_profile_rows (\<lambda>x. []) sample_db
   \<and> treatment_effect_rows (drop_zero_values sample_db) = treatment_effect_rows sample_db"
  using zero_value_treated_as_absent [of "\<lambda>x. []" sample_db]
  by (simp add: drop_zero_values_def drop_zero_value_def drop_zero_def sample_db_def)

subsection \<open>The risk loop in closed form\<close>

lemma weight_positive: "0 < get_evidence_level_weight l"
proof (cases l)
  case None
  then show ?thesis by (simp add: get_evidence_level_weight_def)
next
  case (Some x)
  have "map_of weights x = Some w \<Longrightarrow> 0 < w" for w
    by (auto simp: weights_def split: if_splits)
  with Some show ?thesis
    by (auto simp: get_evidence_level_weight_def split: option.splits)
qed

lemma weight_values:
  "get_evidence_level_weight (Some (ascii ''1a'')) = 5"
  "get_evidence_level_weight (Some (ascii ''5'')) = 1 / 2"
  by (simp_all add: get_evidence_level_weight_def weights_def ascii_def)

lemma finding_weight_nonneg: "0 \<le> finding_weight p"
  using weight_positive [of "snd p"] by (simp add: finding_weight_def less_imp_le)

lemma sum_weight_nonneg: "0 \<le> sum_list (map finding_weight fs)"
  by (induction fs) (simp_all add: finding_weight_nonneg)

lemma risk_loop_sums:
  "risk_loop f fs tw wr ids =
     (tw + sum_list (map finding_weight fs), wr + sum_list (map finding_product fs),
      ids @ map f (contributing_values fs))"
  by (induction fs arbitrary: tw wr ids)
     (auto simp: finding_weight_def finding_product_def contributing_values_def truthy_def
        Let_def algebra_simps split: option.splits)


subsection \<open>Weighting monotonicity\<close>

lemma sum_list_insert:
  fixes g :: "'a \<Rightarrow> real"
  shows "sum_list (map g (pre @ x # post)) = g x + sum_list (map g (pre @ post))"
  by (induction pre) simp_all

lemma profile_value_contributing:
  assumes "v \<noteq> 0"
  shows "map arp_risk_value (profile_from_findings f t (pre @ (Some v, l) # post)) =
     [(sum_list (map finding_product (pre @ post)) + v * get_evidence_level_weight l)
        / (sum_list (map finding_weight (pre @ post)) + get_evidence_level_weight l)]"
proof -
  have "0 < sum_list (map finding_weight (pre @ post)) + get_evidence_level_weight l"
    using sum_weight_nonneg [of "pre @ post"] weight_positive [of l] by linarith
  then show ?thesis
    using assms
    by (simp add: profile_from_findings_def risk_loop_sums sum_list_insert
        finding_weight_def finding_product_def truthy_def add_ac)
qed

lemma shift_toward:
  fixes S W v :: real
  assumes "0 \<le> W"
  defines "a \<equiv> (S + v * (1 / 2)) / (W + 1 / 2)" and "b \<equiv> (S + v * 5) / (W + 5)"
  shows "\<bar>b - v\<bar> \<le> \<bar>a - v\<bar>" and "a \<noteq> v \<Longrightarrow> \<bar>b - v\<bar> < \<bar>a - v\<bar>"
    and "0 \<le> (b - v) * (a - v)"
proof -
  define D where "D = S - W * v"
  have pa: "0 < W + 1 / 2" and pb: "0 < W + 5" using assms(1) by linarith+
  have a: "a - v = D / (W + 1 / 2)"
    using pa by (simp add: a_def D_def field_simps)
  have b: "b - v = D / (W + 5)"
    using pb by (simp add: b_def D_def field_simps)
  have le: "\<bar>D\<bar> / (W + 5) \<le> \<bar>D\<bar> / (W + 1 / 2)"
    using pa pb by (intro divide_left_mono) (auto simp: mult_pos_pos)
  have absa: "\<bar>a - v\<bar> = \<bar>D\<bar> / (W + 1 / 2)"
    using pa by (simp add: a abs_of_pos)
  have absb: "\<bar>b - v\<bar> = \<bar>D\<bar> / (W + 5)"
    using pb by (simp add: b abs_of_pos)
  show "\<bar>b - v\<bar> \<le> \<bar>a - v\<bar>"
    using le by (simp only: absa absb)
  show "\<bar>b - v\<bar> < \<bar>a - v\<bar>" if "a \<noteq> v"
  proof -
    from that a have "D \<noteq> 0" by auto
    then have "0 < \<bar>D\<bar>" by simp
    then have "\<bar>D\<bar> / (W + 5) < \<bar>D\<bar> / (W + 1 / 2)"
      using pa pb by (intro divide_strict_left_mono) (auto simp: mult_pos_pos)
    then show ?thesis by (simp only: absa absb)
  qed
  have "(b - v) * (a - v) = D * D / ((W + 5) * (W + 1 / 2))"
    by (simp add: a b)
  also have "0 \<le> \<dots>"
    using pa pb by (intro divide_nonneg_pos mult_pos_pos) auto
  finally show "0 \<le> (b - v) * (a - v)" by simp
qed

lemma risk_loop_non_contributing:
  assumes "\<not> truthy x"
  shows "risk_loop f (pre @ (x, l) # post) tw wr ids = risk_loop f (pre @ post) tw wr ids"
proof (induction pre arbitrary: tw wr ids)
  case Nil
  from assms show ?case by (cases x) (simp_all add: truthy_def)
next
  case (Cons p pre)
  show ?case
  proof (cases "fst p")
    case None
    with Cons.IH show ?thesis by simp
  next
    case (Some u)
    with Cons.IH show ?thesis by (simp add: Let_def)
  qed
qed

lemma profile_non_contributing:
  assumes "\<not> truthy x"
  shows "profile_from_findings f t (pre @ (x, l1) # post)
       = profile_from_findings f t (pre @ (x, l2) # post)"
  using assms
  by (simp add: profile_from_findings_def risk_loop_non_contributing split: prod.splits)

lemma no_weight_no_product:
  "sum_list (map finding_weight fs) = 0 \<Longrightarrow> sum_list (map finding_product fs) = 0"
proof (induction fs)
  case Nil
  then show ?case by simp
next
  case (Cons p fs)
  have a: "0 \<le> finding_weight p" by (rule finding_weight_nonneg)
  have b: "0 \<le> sum_list (map finding_weight fs)" by (rule sum_weight_nonneg)
  from Cons.prems a b have p0: "finding_weight p = 0" and r0: "sum_list (map finding_weight fs) = 0"
    by simp_all
  have w: "0 < get_evidence_level_weight (snd p)" by (rule weight_positive)
  from p0 w have "finding_product p = 0"
    by (cases "fst p") (auto simp: finding_weight_def finding_product_def truthy_def split: if_splits)
  with Cons.IH [OF r0] show ?case by simp
qed

text \<open>
  C6, as stated, says that replacing a tier-\<^verbatim>\<open>5\<close> finding by the same finding
  of tier \<^verbatim>\<open>1a\<close> strictly increases the weight the bucket receives and so shifts
  the weighted average toward the finding's value. The loop adds a finding's weight
  only under \<^verbatim>\<open>if effect_value:\<close>, so a finding whose value is 0 (or absent)
  adds no weight at either tier: with a tier-\<^verbatim>\<open>2a\<close> finding of value 10 and a
  tier-\<^verbatim>\<open>5\<close> finding of value 0, the total weight is 3 before and after the
  replacement and the generated row is the same, with average 10.
\<close>

theorem tier_upgrade_of_zero_value:
  "fst (risk_loop sample_str_float
          [(Some 10, Some (ascii ''2a'')), (Some 0, Some (ascii ''5''))] 0 0 []) = 3
   \<and> fst (risk_loop sample_str_float
          [(Some 10, Some (ascii ''2a'')), (Some 0, Some (ascii ''1a''))] 0 0 []) = 3
   \<and> \<not> (fst (risk_loop sample_str_float
          [(Some 10, Some (ascii ''2a'')), (Some 0, Some (ascii ''5''))] 0 0 [])
        < fst (risk_loop sample_str_float
          [(Some 10, Some (ascii ''2a'')), (Some 0, Some (ascii ''1a''))] 0 0 []))
   \<and> profile_from_findings sample_str_float 12
          [(Some 10, Some (ascii ''2a'')), (Some 0, Some (ascii ''1a''))]
     = profile_from_findings sample_str_float 12
          [(Some 10, Some (ascii ''2a'')), (Some 0, Some (ascii ''5''))]
   \<and> map arp_risk_value (profile_from_findings sample_str_float 12
          [(Some 10, Some (ascii ''2a'')), (Some 0, Some (ascii ''5''))]) = [10]"
  by (simp add: profile_from_findings_def get_evidence_level_weight_def weights_def ascii_def)

text \<open>
  C6, amended: the weight of tier \<^verbatim>\<open>1a\<close> is 5.0 and that of tier \<^verbatim>\<open>5\<close> is 0.5.
  When a finding of tier \<^verbatim>\<open>5\<close> whose value \<open>v\<close> is present and not 0 is replaced,
  among the findings of a threshold, by the same finding with tier \<^verbatim>\<open>1a\<close>, the
  total weight of the bucket grows by 4.5, and the weighted average \<open>b\<close> after the
  replacement is at least as close to \<open>v\<close> as the average \<open>a\<close> before it, on the
  same side of \<open>v\<close>, and strictly closer unless the average was \<open>v\<close> already (as
  it is when no other finding contributes). When the value of the finding is 0 or
  absent, the replacement changes nothing in the generated row.
\<close>

theorem tier_upgrade_shifts_average:
  assumes "v \<noteq> 0"
  shows "get_evidence_level_weight (Some (ascii ''1a'')) = 5
    \<and> get_evidence_level_weight (Some (ascii ''5'')) = 0.5
    \<and> fst (risk_loop str_float (pre @ (Some v, Some (ascii ''1a'')) # post) 0 0 [])
        = fst (risk_loop str_float (pre @ (Some v, Some (ascii ''5'')) # post) 0 0 []) + 4.5
    \<and> (\<exists>a b.
          map arp_risk_value
            (profile_from_findings str_float t (pre @ (Some v, Some (ascii ''5'')) # post)) = [a]
        \<and> map arp_risk_value
            (profile_from_findings str_float t (pre @ (Some v, Some (ascii ''1a'')) # post)) = [b]
        \<and> \<bar>b - v\<bar> \<le> \<bar>a - v\<bar> \<and> (a \<noteq> v \<longrightarrow> \<bar>b - v\<bar> < \<bar>a - v\<bar>)
        \<and> 0 \<le> (b - v) * (a - v)
        \<and> (sum_list (map finding_weight (pre @ post)) = 0 \<longrightarrow> a = v \<and> b = v))
    \<and> profile_from_findings str_float t (pre @ (Some 0, Some (ascii ''1a'')) # post)
        = profile_from_findings str_float t (pre @ (Some 0, Some (ascii ''5'')) # post)
    \<and> profile_from_findings str_float t (pre @ (None, Some (ascii ''1a'')) # post)
        = profile_from_findings str_float t (pre @ (None, Some (ascii ''5'')) # post)"
proof -
  let ?S = "sum_list (map finding_product (pre @ post))"
  let ?W = "sum_list (map finding_weight (pre @ post))"
  have W: "0 \<le> ?W" by (rule sum_weight_nonneg)
  have loop: "fst (risk_loop str_float (pre @ (Some v, Some (ascii ''1a'')) # post) 0 0 [])
        = fst (risk_loop str_float (pre @ (Some v, Some (ascii ''5'')) # post) 0 0 []) + 4.5"
    using assms
    by (simp add: risk_loop_sums sum_list_insert finding_weight_def truthy_def weight_values)
  have lo: "map arp_risk_value
      (profile_from_findings str_float t (pre @ (Some v, Some (ascii ''5'')) # post))
      = [(?S + v * (1 / 2)) / (?W + 1 / 2)]"
    using profile_value_contributing [OF assms, of str_float t pre "Some (ascii ''5'')" post]
    by (simp add: weight_values)
  have hi: "map arp_risk_value
      (profile_from_findings str_float t (pre @ (Some v, Some (ascii ''1a'')) # post))
      = [(?S + v * 5) / (?W + 5)]"
    using profile_value_contributing [OF assms, of str_float t pre "Some (ascii ''1a'')" post]
    by (simp add: weight_values)
  have sole: "(?S + v * (1 / 2)) / (?W + 1 / 2) = v \<and> (?S + v * 5) / (?W + 5) = v"
    if "?W = 0"
  proof -
    have "?S = 0" using that by (rule no_weight_no_product)
    with that show ?thesis by simp
  qed
  have zero: "profile_from_findings str_float t (pre @ (Some 0, Some (ascii ''1a'')) # post)
        = profile_from_findings str_float t (pre @ (Some 0, Some (ascii ''5'')) # post)"
    by (rule profile_non_contributing) (simp add: truthy_def)
  have none: "profile_from_findings str_float t (pre @ (None, Some (ascii ''1a'')) # post)
        = profile_from_findings str_float t (pre @ (None, Some (ascii ''5'')) # post)"
    by (rule profile_non_contributing) (simp add: truthy_def)
  from shift_toward [OF W, of ?S v] lo hi loop sole zero none show ?thesis
    by (simp add: weight_values)
qed

theorem tier_upgrade_shifts_average_witness:
  "(42::real) \<noteq> 0
   \<and> map arp_risk_value (profile_from_findings sample_str_float 12
         ([(Some 10, Some (ascii ''2a''))] @ (Some 42, Some (ascii ''5'')) # [])) = [102 / 7]
   \<and> map arp_risk_value (profile_from_findings sample_str_float 12
         ([(Some 10, Some (ascii ''2a''))] @ (Some 42, Some (ascii ''1a'')) # [])) = [30]"
  using tier_upgrade_shifts_average [of 42 sample_str_float "[(Some 10, Some (ascii ''2a''))]" "[]" 12]
  by (simp add: profile_from_findings_def get_evidence_level_weight_def weights_def ascii_def)


subsection \<open>Age risk profiles\<close>

lemma product_bounds:
  assumes "list_all (\<lambda>v. 0 \<le> v \<and> v \<le> 100) (contributing_values fs)"
  shows "0 \<le> sum_list (map finding_product fs)
       \<and> sum_list (map finding_product fs) \<le> 100 * sum_list (map finding_weight fs)"
  using assms
proof (induction fs)
  case Nil
  then show ?case by simp
next
  case (Cons p fs)
  have rest: "list_all (\<lambda>v. 0 \<le> v \<and> v \<le> 100) (contributing_values fs)"
    using Cons.prems by (simp add: contributing_values_def)
  have w: "0 < get_evidence_level_weight (snd p)" by (rule weight_positive)
  have "0 \<le> finding_product p \<and> finding_product p \<le> 100 * finding_weight p"
  proof (cases "fst p")
    case None
    then show ?thesis by (simp add: finding_product_def finding_weight_def truthy_def)
  next
    case (Some v)
    show ?thesis
    proof (cases "v = 0")
      case True
      with Some show ?thesis by (simp add: finding_product_def finding_weight_def truthy_def)
    next
      case False
      with Some Cons.prems have "0 \<le> v \<and> v \<le> 100"
        by (simp add: contributing_values_def)
      with Some False w show ?thesis
        by (simp add: finding_product_def finding_weight_def truthy_def)
    qed
  qed
  with Cons.IH [OF rest] show ?case by simp
qed

lemma profile_from_findings_row:
  assumes "fs \<noteq> []"
  shows "\<exists>r. profile_from_findings f t fs = [r] \<and> arp_age_threshold r = t
    \<and> 0 < arp_confidence_level r \<and> arp_confidence_level r \<le> 0.95
    \<and> arp_risk_value r =
        (if 0 < sum_list (map finding_weight fs)
         then sum_list (map finding_product fs) / sum_list (map finding_weight fs)
         else real_of_int t / 2)
    \<and> arp_confidence_level r =
        (if 0 < sum_list (map finding_weight fs)
         then min (sum_list (map finding_weight fs) / real (length fs)) 0.95
         else 0.5)"
proof (cases "0 < sum_list (map finding_weight fs)")
  case True
  from assms have "0 < real (length fs)" by simp
  with True have "0 < sum_list (map finding_weight fs) / real (length fs)"
    by (rule divide_pos_pos)
  then have "0 < min (sum_list (map finding_weight fs) / real (length fs)) 0.95"
    by (simp add: min_less_iff_conj)
  moreover have "min (sum_list (map finding_weight fs) / real (length fs)) 0.95 \<le> 0.95"
    by (rule min.cobounded2)
  ultimately show ?thesis using True assms
    by (simp add: profile_from_findings_def risk_loop_sums)
next
  case False
  with assms show ?thesis
    by (simp add: profile_from_findings_def risk_loop_sums)
qed

lemma filter_profile:
  "filter (\<lambda>r. arp_age_threshold r = T) (profile_from_findings f t fs)
     = (if t = T then profile_from_findings f t fs else [])"
proof (cases "fs = []")
  case True
  then show ?thesis by (simp add: profile_from_findings_def)
next
  case False
  then show ?thesis
    by (cases "0 < sum_list (map finding_weight fs)")
       (simp_all add: profile_from_findings_def risk_loop_sums)
qed

lemma filter_rows:
  assumes "T \<in> set age_thresholds"
  shows "filter (\<lambda>r. arp_age_threshold r = T) (age_risk_profile_rows f db)
     = age_risk_profile_at f db T"
  using assms
  by (auto simp: age_risk_profile_rows_def age_risk_profile_at_def age_thresholds_def
      filter_profile)

text \<open>
  C1, as stated, says that after a run every threshold of 12, 18, 25, 40, 60 has a
  row, with risk value in [0, 100] and confidence in [0, 0.95]. The risk value is the
  weighted mean of the extracted values and these are not bounded: the text
  "risk 2.5x" gives 150, and the row of every threshold then has risk value 150.
  (With no finding at all the run writes no row: the fallback to the default is
  reached only when findings were fetched and none of them has a value.)
\<close>

theorem risk_value_above_100:
  "map (\<lambda>r. (arp_age_threshold r, arp_risk_value r))
        (age_risk_profile_rows sample_str_float sample_db_bai)
      = [(12, 150), (18, 150), (25, 150), (40, 150), (60, 150)]
   \<and> \<not> (150 \<le> (100::real))
   \<and> age_risk_profile_rows sample_str_float empty_db = []"
  by (simp add: age_thresholds_def age_risk_profile_rows_def age_risk_profile_at_def
      risk_findings_def sample_db_bai_def empty_db_def profile_from_findings_def
      get_evidence_level_weight_def weights_def ascii_def)

text \<open>
  C1, amended: for every threshold \<open>T\<close> of the fixed set for which the query
  fetches at least one finding, the run writes exactly one row keyed by \<open>T\<close>; its
  confidence lies in (0, 0.95]; its risk value is the weighted mean of the
  contributing values, or \<open>T/2\<close> when no fetched finding contributes, and it lies
  in [0, 100] whenever all contributing values do.
\<close>

theorem age_risk_profile_generated:
  assumes "T \<in> set age_thresholds" and "risk_findings db T \<noteq> []"
  shows "\<exists>r. filter (\<lambda>r. arp_age_threshold r = T) (age_risk_profile_rows str_float db) = [r]
    \<and> 0 < arp_confidence_level r \<and> arp_confidence_level r \<le> 0.95
    \<and> arp_risk_value r =
        (if 0 < sum_list (map finding_weight (risk_findings db T))
         then sum_list (map finding_product (risk_findings db T))
              / sum_list (map finding_weight (risk_findings db T))
         else real_of_int T / 2)
    \<and> (list_all (\<lambda>v. 0 \<le> v \<and> v \<le> 100) (contributing_values (risk_findings db T))
         \<longrightarrow> 0 \<le> arp_risk_value r \<and> arp_risk_value r \<le> 100)"
proof -
  let ?fs = "risk_findings db T"
  let ?W = "sum_list (map finding_weight ?fs)"
  let ?S = "sum_list (map finding_product ?fs)"
  from profile_from_findings_row [OF assms(2), of str_float T]
  obtain r where r: "profile_from_findings str_float T ?fs = [r]"
    and conf: "0 < arp_confidence_level r" "arp_confidence_level r \<le> 0.95"
    and val: "arp_risk_value r = (if 0 < ?W then ?S / ?W else real_of_int T / 2)"
    by blast
  have rows: "filter (\<lambda>r. arp_age_threshold r = T) (age_risk_profile_rows str_float db) = [r]"
    using filter_rows [OF assms(1), of str_float db] r by (simp add: age_risk_profile_at_def)
  have bound: "0 \<le> arp_risk_value r \<and> arp_risk_value r \<le> 100"
    if ok: "list_all (\<lambda>v. 0 \<le> v \<and> v \<le> 100) (contributing_values ?fs)"
  proof (cases "0 < ?W")
    case True
    from product_bounds [OF ok] have "0 \<le> ?S" "?S \<le> 100 * ?W" by simp_all
    with True have "0 \<le> ?S / ?W" and "?S / ?W \<le> 100"
      by (simp_all add: pos_divide_le_eq)
    with True val show ?thesis by simp
  next
    case False
    have "0 \<le> real_of_int T / 2 \<and> real_of_int T / 2 \<le> 100"
      using assms(1) by (auto simp: age_thresholds_def)
    with False val show ?thesis by simp
  qed
  from rows conf val bound show ?thesis by blast
qed

lemma risk_findings_sample:
  "risk_findings sample_db T = (if T \<le> 12 then [(Some 42, Some (ascii ''1a''))] else [])
      @ (if T \<le> 100 then [(Some 0, Some (ascii ''5''))] else [])"
  by (simp add: risk_findings_def sample_db_def)

theorem age_risk_profile_generated_witness:
  "12 \<in> set age_thresholds \<and> risk_findings sample_db 12 \<noteq> []
   \<and> map (\<lambda>r. (arp_age_threshold r, arp_risk_value r, arp_confidence_level r))
        (age_risk_profile_rows sample_str_float sample_db)
      = [(12, 42, 0.95), (18, 9, 0.5), (25, 12.5, 0.5), (40, 20, 0.5), (60, 30, 0.5)]"
  using age_risk_profile_generated [of 12 sample_db sample_str_float]
  by (simp add: age_thresholds_def age_risk_profile_rows_def age_risk_profile_at_def
      risk_findings_sample profile_from_findings_def get_evidence_level_weight_def
      weights_def ascii_def)

subsection \<open>Provenance of derived rows\<close>

lemma add_to_category_keys:
  "map fst (add_to_category c f es) =
     (if c \<in> fst ` set es then map fst es else map fst es @ [c])"
  by (induction es) auto

lemma add_to_category_distinct:
  "distinct (map fst es) \<Longrightarrow> distinct (map fst (add_to_category c f es))"
  by (simp add: add_to_category_keys)

lemma add_to_category_map_of:
  "map_of (add_to_category c f es) =
     (map_of es)(c \<mapsto> (case map_of es c of None \<Rightarrow> [f] | Some xs \<Rightarrow> xs @ [f]))"
  by (induction es) (auto simp: fun_eq_iff)

lemma group_of_snoc:
  "group_of (fs @ [f]) =
     (group_of fs)(finding_category f \<mapsto>
        (case group_of fs (finding_category f) of None \<Rightarrow> [f] | Some xs \<Rightarrow> xs @ [f]))"
  by (auto simp: group_of_def fun_eq_iff)

lemma categorize_foldl_groups:
  assumes "map_of acc = group_of seen" and "distinct (map fst acc)"
  shows "map_of (foldl (\<lambda>categories f.
            add_to_category (match_category (fst (snd (snd f)))) f categories) acc fs)
          = group_of (seen @ fs)
       \<and> distinct (map fst (foldl (\<lambda>categories f.
            add_to_category (match_category (fst (snd (snd f)))) f categories) acc fs))"
  using assms
proof (induction fs arbitrary: acc seen)
  case Nil
  then show ?case by simp
next
  case (Cons f fs)
  let ?acc = "add_to_category (match_category (fst (snd (snd f)))) f acc"
  have 1: "map_of ?acc = group_of (seen @ [f])"
    using Cons.prems(1)
    by (simp add: add_to_category_map_of group_of_snoc finding_category_def)
  have 2: "distinct (map fst ?acc)"
    using Cons.prems(2) by (rule add_to_category_distinct)
  from Cons.IH [OF 1 2] show ?case by simp
qed

lemma categorize_findings_groups:
  assumes "(c, xs) \<in> set (categorize_findings fs)"
  shows "xs = filter (\<lambda>f. finding_category f = c) fs"
proof -
  have "map_of [] = group_of []" by (simp add: group_of_def fun_eq_iff)
  from categorize_foldl_groups [OF this, of fs]
  have m: "map_of (categorize_findings fs) = group_of fs"
    and d: "distinct (map fst (categorize_findings fs))"
    by (simp_all add: categorize_findings_def)
  from d assms have "map_of (categorize_findings fs) c = Some xs" by simp
  with m show ?thesis by (simp add: group_of_def split: if_splits)
qed

lemma effect_loop_paper_ids:
  "ea_paper_ids (foldl effect_step a fs) =
     ea_paper_ids a @ map str_int [snd (snd (snd (snd f))). f \<leftarrow> fs, truthy (fst f)]"
proof (induction fs arbitrary: a)
  case Nil
  then show ?case by simp
next
  case (Cons f fs)
  have "ea_paper_ids (effect_step a f) =
      ea_paper_ids a @ (if truthy (fst f) then [str_int (snd (snd (snd (snd f))))] else [])"
    by (cases f) (auto simp: effect_step_def count_direction_def truthy_def Let_def
        split: option.splits effect_direction.splits)
  with Cons.IH [of "effect_step a f"] show ?case by simp
qed

lemma category_effect_provenance:
  assumes "r \<in> set (category_effect iid (c, xs))"
  shows "te_issue_id r = iid \<and> te_effect_category r = c
    \<and> te_calculated_from r =
        join_comma (map str_int [snd (snd (snd (snd f))). f \<leftarrow> xs, truthy (fst f)])"
  using assms
  by (auto simp: category_effect_def Let_def effect_loop_paper_ids effect_acc0_def
      split: if_splits)

lemma str_nat_chars: "list_all id_char (str_nat n)"
proof (induction n rule: str_nat.induct)
  case (1 n)
  show ?case
  proof (cases "n < 10")
    case True
    then show ?thesis by (subst str_nat.simps) (simp add: id_char_def)
  next
    case False
    have "n mod 10 < 10" by simp
    then have "id_char (48 + n mod 10)" unfolding id_char_def by linarith
    with False 1 show ?thesis by (subst str_nat.simps) simp
  qed
qed

lemma str_int_chars: "list_all id_char (str_int i)"
  by (simp add: str_int_def str_nat_chars) (simp add: id_char_def)

lemma join_comma_chars:
  "list_all (list_all id_char) ps \<Longrightarrow> list_all id_char (join_comma ps)"
  by (induction ps rule: join_comma.induct) (simp_all add: id_char_def)

lemma id_list_chars: "list_all id_char (join_comma (map str_int ids))"
  by (rule join_comma_chars) (induction ids, simp_all add: str_int_chars)

lemma comprehension_filter:
  "[g f. f \<leftarrow> filter P fs, Q f] = [g f. f \<leftarrow> fs, P f, Q f]"
  by (induction fs) simp_all

lemma issue_effects_provenance:
  assumes "r \<in> set (issue_effects db di)"
  shows "te_calculated_from r = ascii ''default''
     \<or> te_calculated_from r =
         join_comma (map str_int (contributing_papers db (te_issue_id r) (te_effect_category r)))"
proof (cases "issue_findings db (issue_id di) = []")
  case True
  with assms show ?thesis
    by (auto simp: issue_effects_def generate_default_effects_def)
next
  case False
  with assms obtain c xs where cx: "(c, xs) \<in> set (categorize_findings (issue_findings db (issue_id di)))"
    and r: "r \<in> set (category_effect (issue_id di) (c, xs))"
    by (auto simp: issue_effects_def)
  from categorize_findings_groups [OF cx]
  have xs: "xs = filter (\<lambda>f. finding_category f = c) (issue_findings db (issue_id di))" .
  from category_effect_provenance [OF r] xs
  have "te_calculated_from r =
         join_comma (map str_int (contributing_papers db (te_issue_id r) (te_effect_category r)))"
    by (simp add: contributing_papers_def comprehension_filter)
  then show ?thesis ..
qed

lemma treatment_effect_provenance:
  "list_all (\<lambda>r. te_calculated_from r = ascii ''default''
      \<or> te_calculated_from r =
          join_comma (map str_int
            (contributing_papers db (te_issue_id r) (te_effect_category r))))
     (treatment_effect_rows db)"
  unfolding list_all_iff treatment_effect_rows_def
  using issue_effects_provenance by auto

lemma combined_evidence_no_id_list:
  "ascii ''combined_evidence'' \<noteq> join_comma (map str_int ids)"
proof
  assume "ascii ''combined_evidence'' = join_comma (map str_int ids)"
  with id_list_chars [of ids] have "list_all id_char (ascii ''combined_evidence'')" by simp
  then show False by (simp add: ascii_def id_char_def)
qed

lemma contributing_values_Cons:
  "contributing_values (p # fs) =
     (case fst p of None \<Rightarrow> [] | Some v \<Rightarrow> if v \<noteq> 0 then [v] else [])
       @ contributing_values fs"
  by (cases "fst p") (simp_all add: contributing_values_def)

lemma no_contribution_no_weight:
  "contributing_values fs = [] \<Longrightarrow> sum_list (map finding_weight fs) = 0"
proof (induction fs)
  case Nil
  then show ?case by simp
next
  case (Cons p fs)
  from Cons.prems have rest: "contributing_values fs = []"
    and this_one: "(case fst p of None \<Rightarrow> [] | Some v \<Rightarrow> if v \<noteq> 0 then [v] else []) = []"
    by (simp_all add: contributing_values_Cons)
  from this_one have "finding_weight p = 0"
    by (cases "fst p") (simp_all add: finding_weight_def truthy_def split: if_splits)
  with Cons.IH [OF rest] show ?case by simp
qed

lemma profile_threshold:
  assumes "r \<in> set (profile_from_findings f t fs)"
  shows "arp_age_threshold r = t"
proof (cases "fs = []")
  case True
  with assms show ?thesis by (simp add: profile_from_findings_def)
next
  case False
  with assms show ?thesis
    by (cases "0 < sum_list (map finding_weight fs)")
       (simp_all add: profile_from_findings_def risk_loop_sums)
qed

lemma profile_default:
  assumes "r \<in> set (profile_from_findings f t fs)"
    and "sum_list (map finding_weight fs) = 0"
  shows "arp_calculated_from r = ascii ''default''"
proof (cases "fs = []")
  case True
  with assms show ?thesis by (simp add: profile_from_findings_def)
next
  case False
  with assms show ?thesis
    by (simp add: profile_from_findings_def risk_loop_sums)
qed

lemma age_risk_default_provenance:
  "list_all (\<lambda>r. contributing_values (risk_findings db (arp_age_threshold r)) = []
        \<longrightarrow> arp_calculated_from r = ascii ''default'')
     (age_risk_profile_rows str_float db)"
proof -
  have "contributing_values (risk_findings db (arp_age_threshold r)) = []
        \<longrightarrow> arp_calculated_from r = ascii ''default''"
    if r: "r \<in> set (age_risk_profile_at str_float db t)" for r t
  proof
    assume none: "contributing_values (risk_findings db (arp_age_threshold r)) = []"
    from r have m: "r \<in> set (profile_from_findings str_float t (risk_findings db t))"
      by (simp add: age_risk_profile_at_def)
    from profile_threshold [OF m] none
    have "sum_list (map finding_weight (risk_findings db t)) = 0"
      by (simp add: no_contribution_no_weight)
    with m show "arp_calculated_from r = ascii ''default''" by (rule profile_default)
  qed
  then show ?thesis
    unfolding list_all_iff age_risk_profile_rows_def by auto
qed

lemma issue_findings_sample:
  "issue_findings sample_db 1 =
     [(Some 42, increase, sample_text_42, Some (ascii ''1a''), 1),
      (Some 0, increase, [49, 20493], Some (ascii ''5''), 2)]"
  by (simp add: issue_findings_def sample_db_def)

lemma match_category_samples:
  "match_category sample_text_42 = caries_risk"
  "match_category [49, 20493] = other"
  by (simp_all add: match_category_def category_keywords_def sample_text_42_def ascii_def)

lemma treatment_effect_provenance_sample:
  "map te_calculated_from (treatment_effect_rows sample_db) = [ascii ''1'']"
proof -
  have di: "dental_issues sample_db =
      [\<lparr>issue_id = 1, issue_name_ja = [21474, 29983], severity_base_score = Some 80\<rparr>]"
    by (simp add: sample_db_def)
  show ?thesis
    by (simp add: treatment_effect_rows_def di issue_effects_def issue_findings_sample
      categorize_findings_def match_category_samples category_effect_def effect_step_def
      effect_acc0_def count_direction_def truthy_def get_evidence_level_weight_def
      weights_def ascii_def str_int_def str_nat.simps Let_def)
qed

text \<open>
  The list called \<^verbatim>\<open>paper_ids\<close> in \<^verbatim>\<open>generate_age_risk_profiles\<close> is filled with
  \<^verbatim>\<open>str(finding[0])\<close>, the effect value: for the finding of paper 7 with value 150
  the five rows carry \<^verbatim>\<open>150.0\<close>.
\<close>

lemma age_risk_provenance_of_sample:
  "map arp_calculated_from (age_risk_profile_rows sample_str_float sample_db_bai)
     = [ascii ''150.0'', ascii ''150.0'', ascii ''150.0'', ascii ''150.0'', ascii ''150.0'']
   \<and> map paper_id (research_papers sample_db_bai) = [7]
   \<and> str_int 7 = ascii ''7''"
  by (simp add: age_thresholds_def age_risk_profile_rows_def age_risk_profile_at_def
      risk_findings_def sample_db_bai_def profile_from_findings_def
      get_evidence_level_weight_def weights_def ascii_def sample_str_float_def str_int_def
      str_nat.simps)

text \<open>
  C3, as stated, says that the provenance field of every row written to a derived
  table is the marker \<^verbatim>\<open>default\<close> or a comma-joined list of paper identifiers. The
  rows of the timing-benefit table carry the fixed marker \<^verbatim>\<open>combined_evidence\<close>
  (and those of the future-scenario table \<^verbatim>\<open>evidence_synthesis\<close>), which is neither:
  already on the empty database all five timing rows do.
\<close>

theorem timing_provenance_marker:
  "map tb_calculated_from (timing_benefit_rows empty_db)
     = [ascii ''combined_evidence'', ascii ''combined_evidence'', ascii ''combined_evidence'',
        ascii ''combined_evidence'', ascii ''combined_evidence'']
   \<and> ascii ''combined_evidence'' \<noteq> ascii ''default''
   \<and> \<not> (\<exists>ids. ascii ''combined_evidence'' = join_comma (map str_int ids))"
proof -
  have "ascii ''combined_evidence'' \<noteq> ascii ''default''"
    by (simp add: ascii_def)
  moreover have "map tb_calculated_from (timing_benefit_rows empty_db)
     = [ascii ''combined_evidence'', ascii ''combined_evidence'', ascii ''combined_evidence'',
        ascii ''combined_evidence'', ascii ''combined_evidence'']"
    by (simp add: timing_benefit_rows_def timing_age_groups_def timing_benefit_row_def)
  ultimately show ?thesis
    using combined_evidence_no_id_list by blast
qed

text \<open>
  C3, amended: the provenance field of every treatment-effect row is the marker
  \<^verbatim>\<open>default\<close> or the comma-joined list of the identifiers of the papers of the
  findings of its issue and category whose value contributes; that of an age-risk
  row for whose threshold no fetched finding contributes is \<^verbatim>\<open>default\<close>; that of
  every timing-benefit row is \<^verbatim>\<open>combined_evidence\<close>; that of every future-scenario
  row is \<^verbatim>\<open>evidence_synthesis\<close>.
\<close>

theorem derived_row_provenance:
  "list_all (\<lambda>r. te_calculated_from r = ascii ''default''
      \<or> te_calculated_from r =
          join_comma (map str_int
            (contributing_papers db (te_issue_id r) (te_effect_category r))))
     (treatment_effect_rows db)
   \<and> list_all (\<lambda>r. contributing_values (risk_findings db (arp_age_threshold r)) = []
        \<longrightarrow> arp_calculated_from r = ascii ''default'')
     (age_risk_profile_rows str_float db)
   \<and> list_all (\<lambda>r. tb_calculated_from r = ascii ''combined_evidence'')
        (timing_benefit_rows db)
   \<and> list_all (\<lambda>r. fs_calculated_from r = ascii ''evidence_synthesis'') future_scenario_rows"
proof -
  have "list_all (\<lambda>r. tb_calculated_from r = ascii ''combined_evidence'')
        (timing_benefit_rows db)"
    by (simp add: timing_benefit_rows_def timing_age_groups_def timing_benefit_row_def)
  moreover have
    "list_all (\<lambda>r. fs_calculated_from r = ascii ''evidence_synthesis'') future_scenario_rows"
    by (simp add: future_scenario_rows_def timeframes_def scenario_age_groups_def)
  ultimately show ?thesis
    using treatment_effect_provenance [of db] age_risk_default_provenance [of db str_float]
    by blast
qed

theorem derived_row_provenance_witness:
  "map te_calculated_from (treatment_effect_rows sample_db) = [ascii ''1'']
   \<and> map arp_calculated_from (age_risk_profile_rows sample_str_float sample_db)
       = [ascii ''42.0'', ascii ''default'', ascii ''default'', ascii ''default'',
          ascii ''default'']"
  using derived_row_provenance [of sample_db sample_str_float] treatment_effect_provenance_sample
  by (simp add: age_thresholds_def age_risk_profile_rows_def age_risk_profile_at_def
      risk_findings_sample profile_from_findings_def get_evidence_level_weight_def
      weights_def ascii_def sample_str_float_def str_int_def str_nat.simps)

subsection \<open>Text signal extraction\<close>

lemma starts_with_iff: "starts_with kw s \<longleftrightarrow> (\<exists>post. s = kw @ post)"
  by (induction kw s rule: starts_with.induct) auto

lemma py_in_iff: "py_in kw s \<longleftrightarrow> contains_text kw s"
proof (induction s)
  case Nil
  then show ?case by (simp add: contains_text_def)
next
  case (Cons c cs)
  have "contains_text kw (c # cs) \<longleftrightarrow> (\<exists>post. c # cs = kw @ post) \<or> contains_text kw cs"
    unfolding contains_text_def
  proof
    assume "\<exists>pre post. c # cs = pre @ kw @ post"
    then obtain pre post where e: "c # cs = pre @ kw @ post" by blast
    show "(\<exists>post. c # cs = kw @ post) \<or> (\<exists>pre post. cs = pre @ kw @ post)"
    proof (cases pre)
      case Nil
      with e show ?thesis by auto
    next
      case (Cons p pre')
      with e have "cs = pre' @ kw @ post" by simp
      then show ?thesis by blast
    qed
  next
    assume "(\<exists>post. c # cs = kw @ post) \<or> (\<exists>pre post. cs = pre @ kw @ post)"
    then show "\<exists>pre post. c # cs = pre @ kw @ post"
    proof
      assume "\<exists>post. c # cs = kw @ post"
      then obtain post where "c # cs = [] @ kw @ post" by auto
      then show ?thesis by blast
    next
      assume "\<exists>pre post. cs = pre @ kw @ post"
      then obtain pre post where "c # cs = (c # pre) @ kw @ post" by auto
      then show ?thesis by blast
    qed
  qed
  with Cons.IH show ?case by (simp add: starts_with_iff)
qed

lemma take_digits_sound:
  "take_digits s = (ds, rest) \<Longrightarrow>
     \<exists>a. s = a @ rest \<and> map digit_value a = map Some ds
       \<and> (rest = [] \<or> digit_value (hd rest) = None)"
proof (induction s arbitrary: ds rest)
  case Nil
  then show ?case by simp
next
  case (Cons c cs)
  show ?case
  proof (cases "digit_value c")
    case None
    with Cons.prems show ?thesis by auto
  next
    case (Some d)
    obtain ds' rest' where t: "take_digits cs = (ds', rest')" by (cases "take_digits cs")
    with Some Cons.prems have e: "ds = d # ds'" "rest = rest'" by simp_all
    from Cons.IH [OF t] obtain a where "cs = a @ rest'" "map digit_value a = map Some ds'"
      "rest' = [] \<or> digit_value (hd rest') = None" by blast
    with Some e have "c # cs = (c # a) @ rest \<and> map digit_value (c # a) = map Some ds
       \<and> (rest = [] \<or> digit_value (hd rest) = None)" by simp
    then show ?thesis by blast
  qed
qed

lemma take_digits_complete:
  "map digit_value a = map Some ds \<Longrightarrow> rest = [] \<or> digit_value (hd rest) = None \<Longrightarrow>
     take_digits (a @ rest) = (ds, rest)"
proof (induction a arbitrary: ds)
  case Nil
  then show ?case by (cases rest) auto
next
  case (Cons c a)
  then obtain d ds' where "ds = d # ds'" "digit_value c = Some d"
    "map digit_value a = map Some ds'" by (cases ds) auto
  with Cons.IH [of ds'] Cons.prems(2) show ?case by simp
qed

lemma match_number_at_iff:
  assumes "digit_value x = None" and "x \<noteq> 46"
  shows "match_number_at x s = Some g \<longleftrightarrow> (\<exists>t post. s = t @ x # post \<and> number_group t g)"
proof
  assume m: "match_number_at x s = Some g"
  obtain ip rest where t1: "take_digits s = (ip, rest)" by (cases "take_digits s")
  from take_digits_sound [OF t1] obtain a where a: "s = a @ rest"
    "map digit_value a = map Some ip" by blast
  from m t1 have ne: "ip \<noteq> []" by (auto simp: match_number_at_def split: if_splits)
  with a have ane: "a \<noteq> []" by auto
  from m t1 ne obtain c rest' where r: "rest = c # rest'"
    by (cases rest) (auto simp: match_number_at_def)
  show "\<exists>t post. s = t @ x # post \<and> number_group t g"
  proof (cases "c = x")
    case True
    with m t1 ne r have "g = (ip, [])" by (auto simp: match_number_at_def)
    with a ane have "number_group a g" by (auto simp: number_group_def)
    with a r True show ?thesis by blast
  next
    case False
    with m t1 ne r have c: "c = 46"
      by (auto simp: match_number_at_def split: if_splits)
    obtain fp rest'' where t2: "take_digits rest' = (fp, rest'')" by (cases "take_digits rest'")
    from take_digits_sound [OF t2] obtain b where b: "rest' = b @ rest''"
      "map digit_value b = map Some fp" by blast
    from m t1 ne r c assms(2) t2 obtain post where p: "rest'' = x # post" and g: "g = (ip, fp)"
      by (cases rest'') (auto simp: match_number_at_def split: if_splits)
    from a(2) ane b(2) g have "number_group (a @ 46 # b) g"
      by (auto simp: number_group_def)
    moreover from a r c b p have "s = (a @ 46 # b) @ x # post" by simp
    ultimately show ?thesis by blast
  qed
next
  assume "\<exists>t post. s = t @ x # post \<and> number_group t g"
  then obtain t post a c where s: "s = t @ x # post" and ane: "a \<noteq> []"
    and a: "map digit_value a = map Some (fst g)" and c: "map digit_value c = map Some (snd g)"
    and t: "t = a \<and> c = [] \<or> t = a @ 46 # c"
    by (auto simp: number_group_def)
  from a ane have ne: "fst g \<noteq> []" by auto
  have d46: "digit_value 46 = None" by (simp add: digit_value_def decimal_blocks_def)
  from t show "match_number_at x s = Some g"
  proof
    assume "t = a \<and> c = []"
    with s c have s': "s = a @ x # post" and g2: "snd g = []" by simp_all
    from take_digits_complete [OF a, of "x # post"] assms(1)
    have "take_digits (a @ x # post) = (fst g, x # post)" by simp
    with s' ne g2 show ?thesis by (cases g) (simp add: match_number_at_def)
  next
    assume "t = a @ 46 # c"
    with s have s': "s = a @ 46 # c @ x # post" by simp
    from take_digits_complete [OF a, of "46 # c @ x # post"] d46
    have 1: "take_digits (a @ 46 # c @ x # post) = (fst g, 46 # c @ x # post)" by simp
    from take_digits_complete [OF c, of "x # post"] assms(1)
    have 2: "take_digits (c @ x # post) = (snd g, x # post)" by simp
    from s' ne 1 2 assms(2) show ?thesis by (cases g) (simp add: match_number_at_def)
  qed
qed

lemma pattern_at_iff:
  assumes "digit_value x = None" and "x \<noteq> 46"
  shows "pattern_at x s k g \<longleftrightarrow> match_number_at x (drop k s) = Some g"
  by (simp add: pattern_at_def match_number_at_iff [OF assms])

lemma match_number_at_Nil: "match_number_at x [] = None"
  by (simp add: match_number_at_def)

lemma re_search_number_Some:
  "re_search_number x s = Some g \<longleftrightarrow>
     (\<exists>k. match_number_at x (drop k s) = Some g
        \<and> (\<forall>j<k. match_number_at x (drop j s) = None))"
proof (induction s)
  case Nil
  then show ?case by (simp add: match_number_at_Nil)
next
  case (Cons c cs)
  show ?case
  proof (cases "match_number_at x (c # cs)")
    case (Some h)
    have "(\<exists>k. match_number_at x (drop k (c # cs)) = Some g
        \<and> (\<forall>j<k. match_number_at x (drop j (c # cs)) = None)) \<longleftrightarrow> h = g"
    proof
      assume "\<exists>k. match_number_at x (drop k (c # cs)) = Some g
        \<and> (\<forall>j<k. match_number_at x (drop j (c # cs)) = None)"
      then obtain k where k: "match_number_at x (drop k (c # cs)) = Some g"
        "\<forall>j<k. match_number_at x (drop j (c # cs)) = None" by blast
      show "h = g"
      proof (cases k)
        case 0
        with k Some show ?thesis by simp
      next
        case (Suc k')
        with k(2) have "match_number_at x (drop 0 (c # cs)) = None" by blast
        with Some show ?thesis by simp
      qed
    next
      assume "h = g"
      with Some have "match_number_at x (drop 0 (c # cs)) = Some g
        \<and> (\<forall>j<0. match_number_at x (drop j (c # cs)) = None)" by simp
      then show "\<exists>k. match_number_at x (drop k (c # cs)) = Some g
        \<and> (\<forall>j<k. match_number_at x (drop j (c # cs)) = None)" by blast
    qed
    with Some show ?thesis by simp
  next
    case None
    have "(\<exists>k. match_number_at x (drop k (c # cs)) = Some g
        \<and> (\<forall>j<k. match_number_at x (drop j (c # cs)) = None))
      \<longleftrightarrow> (\<exists>k. match_number_at x (drop k cs) = Some g
        \<and> (\<forall>j<k. match_number_at x (drop j cs) = None))"
    proof
      assume "\<exists>k. match_number_at x (drop k (c # cs)) = Some g
        \<and> (\<forall>j<k. match_number_at x (drop j (c # cs)) = None)"
      then obtain k where k: "match_number_at x (drop k (c # cs)) = Some g"
        "\<forall>j<k. match_number_at x (drop j (c # cs)) = None" by blast
      from k(1) None obtain k' where k': "k = Suc k'" by (cases k) auto
      with k(1) have 1: "match_number_at x (drop k' cs) = Some g" by simp
      have "match_number_at x (drop j cs) = None" if "j < k'" for j
        using k(2) k' that by (auto dest: spec [of _ "Suc j"])
      with 1 show "\<exists>k. match_number_at x (drop k cs) = Some g
        \<and> (\<forall>j<k. match_number_at x (drop j cs) = None)" by blast
    next
      assume "\<exists>k. match_number_at x (drop k cs) = Some g
        \<and> (\<forall>j<k. match_number_at x (drop j cs) = None)"
      then obtain k where k: "match_number_at x (drop k cs) = Some g"
        "\<forall>j<k. match_number_at x (drop j cs) = None" by blast
      have "match_number_at x (drop j (c # cs)) = None" if "j < Suc k" for j
        using that k(2) None by (cases j) auto
      with k(1) have "match_number_at x (drop (Suc k) (c # cs)) = Some g
        \<and> (\<forall>j<Suc k. match_number_at x (drop j (c # cs)) = None)" by simp
      then show "\<exists>k. match_number_at x (drop k (c # cs)) = Some g
        \<and> (\<forall>j<k. match_number_at x (drop j (c # cs)) = None)" by blast
    qed
    with None Cons.IH show ?thesis by simp
  qed
qed

lemma re_search_number_None:
  "re_search_number x s = None \<longleftrightarrow> (\<forall>k. match_number_at x (drop k s) = None)"
proof (induction s)
  case Nil
  then show ?case by (simp add: match_number_at_Nil)
next
  case (Cons c cs)
  have "(\<forall>k. match_number_at x (drop k (c # cs)) = None)
    \<longleftrightarrow> match_number_at x (c # cs) = None \<and> (\<forall>k. match_number_at x (drop k cs) = None)"
  proof
    assume a: "\<forall>k. match_number_at x (drop k (c # cs)) = None"
    from a [rule_format, of 0] have "match_number_at x (c # cs) = None" by simp
    moreover have "match_number_at x (drop k cs) = None" for k
      using a [rule_format, of "Suc k"] by simp
    ultimately show "match_number_at x (c # cs) = None
      \<and> (\<forall>k. match_number_at x (drop k cs) = None)" by blast
  next
    assume a: "match_number_at x (c # cs) = None
      \<and> (\<forall>k. match_number_at x (drop k cs) = None)"
    have "match_number_at x (drop k (c # cs)) = None" for k
      using a by (cases k) auto
    then show "\<forall>k. match_number_at x (drop k (c # cs)) = None" by blast
  qed
  with Cons.IH show ?case by (simp split: option.splits)
qed

lemma first_pattern_iff:
  assumes "digit_value x = None" and "x \<noteq> 46"
  shows "first_pattern x s g \<longleftrightarrow> re_search_number x s = Some g"
  by (simp only: first_pattern_def pattern_at_iff [OF assms] re_search_number_Some not_Some_eq)

lemma has_pattern_iff:
  assumes "digit_value x = None" and "x \<noteq> 46"
  shows "has_pattern x s \<longleftrightarrow> re_search_number x s \<noteq> None"
proof -
  have "re_search_number x s \<noteq> None \<longleftrightarrow> (\<exists>k g. match_number_at x (drop k s) = Some g)"
    by (simp only: re_search_number_None not_all not_None_eq)
  then show ?thesis
    by (simp only: has_pattern_def pattern_at_iff [OF assms])
qed

lemma no_pattern_iff:
  assumes "digit_value x = None" and "x \<noteq> 46"
  shows "\<not> has_pattern x s \<longleftrightarrow> re_search_number x s = None"
  by (simp only: has_pattern_iff [OF assms] not_not)

lemma closing_signs:
  "digit_value percent_sign = None" "percent_sign \<noteq> 46"
  "digit_value bai = None" "bai \<noteq> 46"
  by (simp_all add: percent_sign_def bai_def digit_value_def decimal_blocks_def)

text \<open>
  C4: for every text, the extracted value is \<open>n\<close> when the text contains a percentage
  pattern \<open>n\<close>\<^verbatim>\<open>%\<close> (the first one, looked for first), otherwise \<open>n \<times> 100 - 100\<close>
  when it contains a multiplier pattern (the first one), otherwise absent; the
  direction depends on the presence of the keywords alone: \<^verbatim>\<open>increase\<close> when a keyword
  of increase (the multiplier sign among them) is present, otherwise \<^verbatim>\<open>decrease\<close> when
  a keyword of decrease is, otherwise \<^verbatim>\<open>neutral\<close>. The text "caries risk up 42% after
  five years" gives 42 and \<^verbatim>\<open>increase\<close>, the text "risk 2.5x" gives 150 and
  \<^verbatim>\<open>increase\<close>, and a text with neither pattern nor keyword gives no value and
  \<^verbatim>\<open>neutral\<close>.
\<close>

theorem parse_risk_description_patterns:
  "(first_pattern percent_sign s g \<longrightarrow>
      fst (parse_risk_description s) = Some (float_of_group g))
   \<and> (\<not> has_pattern percent_sign s \<and> first_pattern bai s g \<longrightarrow>
      fst (parse_risk_description s) = Some (float_of_group g * 100 - 100))
   \<and> (\<not> has_pattern percent_sign s \<and> \<not> has_pattern bai s \<longrightarrow>
      fst (parse_risk_description s) = None)
   \<and> (has_pattern percent_sign s \<longrightarrow> (\<exists>h. first_pattern percent_sign s h))
   \<and> (has_pattern bai s \<longrightarrow> (\<exists>h. first_pattern bai s h))
   \<and> snd (parse_risk_description s) =
       (if \<exists>kw\<in>set kw_increase. contains_text kw s then increase
        else if \<exists>kw\<in>set kw_decrease. contains_text kw s then decrease
        else neutral)
   \<and> parse_risk_description sample_text_42 = (Some 42, increase)
   \<and> parse_risk_description sample_text_bai = (Some 150, increase)
   \<and> parse_risk_description (ascii ''no data'') = (None, neutral)"
proof -
  note fp = first_pattern_iff [OF closing_signs(1,2)] first_pattern_iff [OF closing_signs(3,4)]
  note hp = has_pattern_iff [OF closing_signs(1,2)] has_pattern_iff [OF closing_signs(3,4)]
  note np = no_pattern_iff [OF closing_signs(1,2)] no_pattern_iff [OF closing_signs(3,4)]
  have 1: "first_pattern percent_sign s g \<longrightarrow>
      fst (parse_risk_description s) = Some (float_of_group g)"
    by (simp add: fp parse_risk_description_def parse_effect_value_def)
  have 2: "\<not> has_pattern percent_sign s \<and> first_pattern bai s g \<longrightarrow>
      fst (parse_risk_description s) = Some (float_of_group g * 100 - 100)"
    by (simp add: fp np parse_risk_description_def parse_effect_value_def)
  have 3: "\<not> has_pattern percent_sign s \<and> \<not> has_pattern bai s \<longrightarrow>
      fst (parse_risk_description s) = None"
    by (simp add: np parse_risk_description_def parse_effect_value_def)
  have 4: "has_pattern percent_sign s \<longrightarrow> (\<exists>h. first_pattern percent_sign s h)"
    by (simp only: fp hp not_None_eq) simp
  have 5: "has_pattern bai s \<longrightarrow> (\<exists>h. first_pattern bai s h)"
    by (simp only: fp hp not_None_eq) simp
  have 6: "snd (parse_risk_description s) =
       (if \<exists>kw\<in>set kw_increase. contains_text kw s then increase
        else if \<exists>kw\<in>set kw_decrease. contains_text kw s then decrease
        else neutral)"
    by (simp add: parse_risk_description_def parse_effect_direction_def list_ex_iff py_in_iff)
  have 7: "parse_risk_description sample_text_42 = (Some 42, increase)"
    by (simp add: sample_text_42_def parse_risk_description_def parse_effect_value_def
        parse_effect_direction_def match_number_at_def digit_value_def decimal_blocks_def
        percent_sign_def bai_def kw_increase_def kw_decrease_def float_of_group_def
        decimal_number_def)
  have 8: "parse_risk_description sample_text_bai = (Some 150, increase)"
    by (simp add: sample_text_bai_def parse_risk_description_def parse_effect_value_def
        parse_effect_direction_def match_number_at_def digit_value_def decimal_blocks_def
        percent_sign_def bai_def kw_increase_def kw_decrease_def float_of_group_def
        decimal_number_def)
  have 9: "parse_risk_description (ascii ''no data'') = (None, neutral)"
    by (simp add: ascii_def parse_risk_description_def parse_effect_value_def
        parse_effect_direction_def match_number_at_def digit_value_def decimal_blocks_def
        percent_sign_def bai_def kw_increase_def kw_decrease_def float_of_group_def
        decimal_number_def)
  from 1 2 3 4 5 6 7 8 9 show ?thesis by blast
qed

theorem parse_risk_description_patterns_witness:
  "first_pattern percent_sign sample_text_42 ([4, 2], [])
   \<and> fst (parse_risk_description sample_text_42) = Some 42
   \<and> \<not> has_pattern percent_sign sample_text_bai
   \<and> first_pattern bai sample_text_bai ([2], [5])
   \<and> fst (parse_risk_description sample_text_bai) = Some 150
   \<and> \<not> has_pattern percent_sign (ascii ''no data'')
   \<and> \<not> has_pattern bai (ascii ''no data'')
   \<and> fst (parse_risk_description (ascii ''no data'')) = None"
proof -
  note fp = first_pattern_iff [OF closing_signs(1,2)] first_pattern_iff [OF closing_signs(3,4)]
  note np = no_pattern_iff [OF closing_signs(1,2)] no_pattern_iff [OF closing_signs(3,4)]
  have a: "first_pattern percent_sign sample_text_42 ([4, 2], [])"
    by (simp only: fp)
       (simp add: sample_text_42_def match_number_at_def digit_value_def
        decimal_blocks_def percent_sign_def)
  have b: "\<not> has_pattern percent_sign sample_text_bai"
    "first_pattern bai sample_text_bai ([2], [5])"
    by (simp_all only: fp np)
       (simp_all add: sample_text_bai_def match_number_at_def digit_value_def
        decimal_blocks_def percent_sign_def bai_def)
  have c: "\<not> has_pattern percent_sign (ascii ''no data'')"
    "\<not> has_pattern bai (ascii ''no data'')"
    by (simp_all only: np)
       (simp_all add: ascii_def match_number_at_def digit_value_def
        decimal_blocks_def percent_sign_def bai_def)
  from a b c
    parse_risk_description_patterns [of sample_text_42 "([4, 2], [])"]
    parse_risk_description_patterns [of sample_text_bai "([2], [5])"]
    parse_risk_description_patterns [of "ascii ''no data''" "([], [])"]
  show ?thesis
    by (simp add: float_of_group_def decimal_number_def)
qed

subsection \<open>Necessity score\<close>

lemma all_some_present:
  "list_all (\<lambda>v. v \<noteq> None) xs \<Longrightarrow> \<exists>ys. all_some xs = Some ys \<and> length ys = length xs"
proof (induction xs)
  case Nil
  then show ?case by simp
next
  case (Cons v xs)
  then obtain x ys where "v = Some x" "all_some xs = Some ys" "length ys = length xs" by auto
  then show ?case by simp
qed

lemma severity_score_defined:
  assumes "list_all (\<lambda>di. issue_id di \<in> set issue_ids \<longrightarrow> severity_base_score di \<noteq> None)
      (dental_issues db)"
  shows "\<exists>severity. calculate_severity_score db issue_ids = Inr severity"
proof -
  let ?results = "[severity_base_score di. di \<leftarrow> dental_issues db, issue_id di \<in> set issue_ids]"
  have "list_all (\<lambda>v. v \<noteq> None) ?results"
    using assms by (induction "dental_issues db" arbitrary: db) (auto simp: list_all_iff)
  from all_some_present [OF this] obtain ys where ys: "all_some ?results = Some ys" by blast
  have "\<not> isl (calculate_severity_score db issue_ids)"
    by (cases ys) (simp_all add: calculate_severity_score_def ys Let_def)
  then show ?thesis
    by (cases "calculate_severity_score db issue_ids") simp_all
qed

lemma py_round_bounds:
  assumes "10 \<le> x" and "x \<le> 100"
  shows "10 \<le> py_round x \<and> py_round x \<le> 100"
proof -
  have lo: "10 \<le> \<lfloor>x\<rfloor>" using assms(1) by (simp add: le_floor_iff)
  have hi: "\<lfloor>x\<rfloor> \<le> 100" using assms(2) by (simp add: floor_le_iff)
  show ?thesis
  proof (cases "\<lfloor>x\<rfloor> = 100")
    case True
    then have "100 \<le> x" by (simp add: floor_eq_iff)
    with assms(2) have "x = 100" by simp
    then show ?thesis by (simp add: py_round_def)
  next
    case False
    with hi have "\<lfloor>x\<rfloor> \<le> 99" by linarith
    with lo show ?thesis by (auto simp: py_round_def Let_def)
  qed
qed

lemma adjusted_total_bonuses:
  "adjusted_total age n x =
     max 10 (min 100 (x + (if age \<le> 18 then 0.5 * real_of_int (18 - age) else 0)
       + (if 35 \<le> age \<and> age \<le> 55 \<and> 2 \<le> n then 2 * (real n - 1) else 0)))"
proof (cases "age \<le> 18")
  case True
  then have "max 0 (18 - age) = 18 - age" by simp
  with True show ?thesis by (simp add: adjusted_total_def Let_def)
next
  case False
  show ?thesis
  proof (cases "35 \<le> age \<and> age \<le> 55 \<and> 2 \<le> n")
    case True
    with False have "adjusted_total age n x = max 10 (min 100 (x + (real n - 1) * 2))"
      by (simp add: adjusted_total_def Let_def)
    also have "(real n - 1) * 2 = 2 * (real n - 1)" by simp
    finally show ?thesis using False True by simp
  next
    case nb: False
    with False have "adjusted_total age n x = max 10 (min 100 x)"
      by (auto simp: adjusted_total_def Let_def)
    with False nb show ?thesis by auto
  qed
qed

text \<open>
  C2, as stated, says that the total necessity score is the sum of the three
  sub-scores plus the two bonuses, clamped to [10, 100]. The function returns that
  number rounded to an integer, and its sub-scores rounded one by one: at age 11 with
  one condition of base severity 80 and empty derived tables the clamped sum is
  \<open>35 + 32 + 0 + 3.5 = 70.5\<close> and the returned total is 70. With a condition that
  has no base severity the scorer raises inside its \<^verbatim>\<open>try\<close> block and the handler
  returns the fixed result 50, 20, 20, 10, whatever the age: at age 10 the sum of
  these sub-scores and the bonus 4 is 54.
\<close>

theorem total_score_half_point:
  "ns_total_score (calculate_ortho_necessity_score sample_db empty_tables 11 [1]) = 70
   \<and> calculate_timing_score (age_timing_benefits empty_tables) 11 = 35
   \<and> calculate_severity_score sample_db [1] = Inr 32
   \<and> calculate_risk_score (age_risk_profiles empty_tables) 11 [1] = 0
   \<and> ns_timing_score (calculate_ortho_necessity_score sample_db empty_tables 11 [1]) = 35
   \<and> ns_severity_score (calculate_ortho_necessity_score sample_db empty_tables 11 [1]) = 32
   \<and> ns_risk_score (calculate_ortho_necessity_score sample_db empty_tables 11 [1]) = 0
   \<and> max 10 (min 100 (35 + 32 + 0 + 0.5 * (18 - 11))) = (70.5 :: real)
   \<and> (70 :: real) \<noteq> 70.5
   \<and> calculate_severity_score sample_db_null [1] = Inl TypeError
   \<and> ns_total_score (calculate_ortho_necessity_score sample_db_null empty_tables 10 [1]) = 50
   \<and> ns_timing_score (calculate_ortho_necessity_score sample_db_null empty_tables 10 [1]) = 20
   \<and> ns_severity_score (calculate_ortho_necessity_score sample_db_null empty_tables 10 [1]) = 20
   \<and> ns_risk_score (calculate_ortho_necessity_score sample_db_null empty_tables 10 [1]) = 10
   \<and> max 10 (min 100 (20 + 20 + 10 + 0.5 * (18 - 10))) = (54 :: real)"
proof -
  have t: "calculate_timing_score (age_timing_benefits empty_tables) 11 = 35"
    by (simp add: calculate_timing_score_def empty_tables_def)
  have s: "calculate_severity_score sample_db [1] = Inr 32"
    by (simp add: calculate_severity_score_def sample_db_def)
  have r: "calculate_risk_score (age_risk_profiles empty_tables) 11 [1] = 0"
    by (simp add: calculate_risk_score_def next_threshold_def empty_tables_def)
  have a: "adjusted_total 11 (Suc 0) 67 = 141 / 2"
    by (simp add: adjusted_total_def)
  have f: "\<lfloor>141 / 2 :: real\<rfloor> = 70" by (simp add: floor_eq_iff)
  have p: "py_round (141 / 2) = 70" "py_round 35 = 35" "py_round 32 = 32" "py_round 0 = 0"
    by (simp_all add: py_round_def f)
  have n: "calculate_severity_score sample_db_null [1] = Inl TypeError"
    by (simp add: calculate_severity_score_def sample_db_null_def)
  show ?thesis
    by (simp add: calculate_ortho_necessity_score_def necessity_body_def t s r a p n Let_def)
qed

text \<open>
  C2, amended: for every age and every non-empty selection of conditions of which
  each one found in the table has a base severity, the returned total score is the
  sum of the timing, severity and risk sub-scores (as computed, before rounding),
  plus \<open>0.5 \<times> (18 - age)\<close> when the age is at most 18, plus
  \<open>2 \<times> (count - 1)\<close> when the age is from 35 to 55 and at least two conditions are
  selected, clamped to [10, 100] and then rounded to the nearest integer, a tie to the
  even one; it lies between 10 and 100, and the returned sub-scores are the rounded
  sub-scores. At age 10 the prevention bonus is 4.
\<close>

theorem necessity_total_score:
  assumes "issue_ids \<noteq> []"
    and "list_all (\<lambda>di. issue_id di \<in> set issue_ids \<longrightarrow> severity_base_score di \<noteq> None)
      (dental_issues db)"
  shows "\<exists>severity. calculate_severity_score db issue_ids = Inr severity
    \<and> (let timing = calculate_timing_score (age_timing_benefits dt) age;
            risk = calculate_risk_score (age_risk_profiles dt) age issue_ids;
            prevention_bonus = (if age \<le> 18 then 0.5 * real_of_int (18 - age) else 0);
            adult_complexity_bonus =
              (if 35 \<le> age \<and> age \<le> 55 \<and> 2 \<le> length issue_ids
               then 2 * (real (length issue_ids) - 1) else 0);
            result = calculate_ortho_necessity_score db dt age issue_ids
        in ns_total_score result =
             py_round (max 10 (min 100
               (timing + severity + risk + prevention_bonus + adult_complexity_bonus)))
           \<and> 10 \<le> ns_total_score result \<and> ns_total_score result \<le> 100
           \<and> ns_timing_score result = py_round timing
           \<and> ns_severity_score result = py_round severity
           \<and> ns_risk_score result = py_round risk)"
proof -
  from severity_score_defined [OF assms(2)]
  obtain severity where s: "calculate_severity_score db issue_ids = Inr severity" by blast
  let ?timing = "calculate_timing_score (age_timing_benefits dt) age"
  let ?risk = "calculate_risk_score (age_risk_profiles dt) age issue_ids"
  let ?pb = "if age \<le> 18 then 0.5 * real_of_int (18 - age) else 0 :: real"
  let ?ab = "if 35 \<le> age \<and> age \<le> 55 \<and> 2 \<le> length issue_ids
               then 2 * (real (length issue_ids) - 1) else 0 :: real"
  let ?t = "max 10 (min 100 (?timing + severity + ?risk + ?pb + ?ab))"
  have adj: "adjusted_total age (length issue_ids) (?timing + severity + ?risk) = ?t"
    by (rule adjusted_total_bonuses)
  have "10 \<le> ?t" and "?t \<le> 100" by simp_all
  then have b: "10 \<le> py_round ?t \<and> py_round ?t \<le> 100" by (rule py_round_bounds)
  have res: "calculate_ortho_necessity_score db dt age issue_ids =
      \<lparr>ns_total_score = py_round ?t, ns_timing_score = py_round ?timing,
        ns_severity_score = py_round severity, ns_risk_score = py_round ?risk,
        ns_interpretation = fst (interpret_necessity_score ?t),
        ns_urgency = snd (interpret_necessity_score ?t)\<rparr>"
    using assms(1)
    by (simp only: calculate_ortho_necessity_score_def necessity_body_def s Let_def adj
        if_False sum.case)
  from s b show ?thesis
    by (simp only: res Let_def) simp
qed

theorem necessity_total_score_witness:
  "[1] \<noteq> ([] :: int list)
   \<and> list_all (\<lambda>di. issue_id di \<in> set [1] \<longrightarrow> severity_base_score di \<noteq> None)
      (dental_issues sample_db)
   \<and> calculate_severity_score sample_db [1] = Inr 32
   \<and> calculate_timing_score (age_timing_benefits empty_tables) 10 = 35
   \<and> calculate_risk_score (age_risk_profiles empty_tables) 10 [1] = 0
   \<and> 0.5 * real_of_int (18 - 10) = 4
   \<and> ns_total_score (calculate_ortho_necessity_score sample_db empty_tables 10 [1]) = 71"
proof -
  have t: "calculate_timing_score (age_timing_benefits empty_tables) 10 = 35"
    by (simp add: calculate_timing_score_def empty_tables_def)
  have s: "calculate_severity_score sample_db [1] = Inr 32"
    by (simp add: calculate_severity_score_def sample_db_def)
  have r: "calculate_risk_score (age_risk_profiles empty_tables) 10 [1] = 0"
    by (simp add: calculate_risk_score_def next_threshold_def empty_tables_def)
  have h: "list_all (\<lambda>di. issue_id di \<in> set [1] \<longrightarrow> severity_base_score di \<noteq> None)
      (dental_issues sample_db)"
    by (simp add: sample_db_def)
  have p: "py_round 71 = 71" by (simp add: py_round_def)
  from necessity_total_score [of "[1]" sample_db empty_tables 10, OF _ h] t s r h p
  show ?thesis by (simp add: Let_def)
qed

subsection \<open>Regenerating all derived tables\<close>

lemma insert_rows_exact:
  "insert_rows ins rows s =
     (case fault s of
        None \<Rightarrow> (Inr (), s\<lparr>pending := fold ins rows (pending s)\<rparr>)
      | Some n \<Rightarrow>
          if length rows \<le> n
          then (Inr (), s\<lparr>pending := fold ins rows (pending s), fault := Some (n - length rows)\<rparr>)
          else (Inl StoreError, s\<lparr>pending := fold ins (take n rows) (pending s), fault := Some 0\<rparr>))"
proof (induction rows arbitrary: s)
  case Nil
  then show ?case by (cases "fault s") simp_all
next
  case (Cons r rows)
  show ?case
  proof (cases "fault s")
    case None
    then show ?thesis by (simp add: execute_write_def Cons.IH)
  next
    case (Some n)
    then show ?thesis
      by (cases n) (simp_all add: execute_write_def Cons.IH)
  qed
qed

lemma regenerate_exact:
  "regenerate clear ins rows s =
     (case fault s of
        None \<Rightarrow>
          (Inr rows, s\<lparr>committed := fold ins rows (clear (pending s)),
                       pending := fold ins rows (clear (pending s))\<rparr>)
      | Some n \<Rightarrow>
          if Suc (length rows) \<le> n
          then (Inr rows, s\<lparr>committed := fold ins rows (clear (pending s)),
                            pending := fold ins rows (clear (pending s)),
                            fault := Some (n - Suc (length rows))\<rparr>)
          else (Inl StoreError, s\<lparr>pending := committed s, fault := Some 0\<rparr>))"
proof (cases "fault s")
  case None
  then show ?thesis
    by (simp add: regenerate_def execute_write_def insert_rows_exact commit_def)
next
  case (Some n)
  then show ?thesis
    by (cases n)
       (simp_all add: regenerate_def execute_write_def insert_rows_exact commit_def rollback_def)
qed

lemma fold_age_risk_profiles:
  "fold (\<lambda>r t. t\<lparr>age_risk_profiles := age_risk_profiles t @ [r]\<rparr>) rows t
     = t\<lparr>age_risk_profiles := age_risk_profiles t @ rows\<rparr>"
  by (induction rows arbitrary: t) simp_all

lemma fold_issue_treatment_effects:
  "fold (\<lambda>r t. t\<lparr>issue_treatment_effects := issue_treatment_effects t @ [r]\<rparr>) rows t
     = t\<lparr>issue_treatment_effects := issue_treatment_effects t @ rows\<rparr>"
  by (induction rows arbitrary: t) simp_all

lemma fold_age_timing_benefits:
  "fold (\<lambda>r t. t\<lparr>age_timing_benefits := age_timing_benefits t @ [r]\<rparr>) rows t
     = t\<lparr>age_timing_benefits := age_timing_benefits t @ rows\<rparr>"
  by (induction rows arbitrary: t) simp_all

lemma fold_future_scenarios:
  "fold (\<lambda>r t. t\<lparr>future_scenarios := future_scenarios t @ [r]\<rparr>) rows t
     = t\<lparr>future_scenarios := future_scenarios t @ rows\<rparr>"
  by (induction rows arbitrary: t) simp_all

lemma fold_economic_impacts:
  "fold (\<lambda>r t. t\<lparr>economic_impacts := economic_impacts t @ [r]\<rparr>) rows t
     = t\<lparr>economic_impacts := economic_impacts t @ rows\<rparr>"
  by (induction rows arbitrary: t) simp_all

lemmas fold_tables = fold_age_risk_profiles fold_issue_treatment_effects
  fold_age_timing_benefits fold_future_scenarios fold_economic_impacts

lemma regenerate_outcome:
  assumes "pending s = committed s" and "\<And>t. fold ins rows (clear t) = put t"
  shows "(\<exists>s'. regenerate clear ins rows s = (Inr rows, s')
            \<and> committed s' = put (committed s) \<and> pending s' = committed s'
            \<and> (fault s = None \<longrightarrow> fault s' = None))
       \<or> (\<exists>s'. regenerate clear ins rows s = (Inl StoreError, s')
            \<and> committed s' = committed s \<and> pending s' = committed s'
            \<and> fault s \<noteq> None)"
  using assms by (cases "fault s") (simp_all add: regenerate_exact)


text \<open>
  On a store that does not fail, every generator returns the rows computed from the
  base tables and leaves exactly these rows committed in its table: what is proved
  of the computed rows holds of the table after a run.
\<close>

lemma generators_write_rows:
  assumes "fault s = None"
  shows "fst (generate_age_risk_profiles f db s) = Inr (age_risk_profile_rows f db)"
    and "age_risk_profiles (committed (snd (generate_age_risk_profiles f db s)))
          = age_risk_profile_rows f db"
    and "fst (generate_issue_treatment_effects db s) = Inr (treatment_effect_rows db)"
    and "issue_treatment_effects (committed (snd (generate_issue_treatment_effects db s)))
          = treatment_effect_rows db"
    and "fst (generate_age_timing_benefits db s) = Inr (timing_benefit_rows db)"
    and "age_timing_benefits (committed (snd (generate_age_timing_benefits db s)))
          = timing_benefit_rows db"
    and "fst (generate_future_scenarios s) = Inr future_scenario_rows"
    and "future_scenarios (committed (snd (generate_future_scenarios s)))
          = future_scenario_rows"
    and "fst (generate_economic_impacts s) = Inr economic_impact_rows"
    and "economic_impacts (committed (snd (generate_economic_impacts s)))
          = economic_impact_rows"
  using assms
  by (simp_all add: generate_age_risk_profiles_def generate_issue_treatment_effects_def
      generate_age_timing_benefits_def generate_future_scenarios_def
      generate_economic_impacts_def regenerate_exact fold_tables)

lemma age_risk_profiles_stage:
  assumes "pending s = committed s"
  shows "(\<exists>s'. generate_age_risk_profiles f db s = (Inr (age_risk_profile_rows f db), s')
            \<and> committed s' = (committed s)\<lparr>age_risk_profiles := age_risk_profile_rows f db\<rparr>
            \<and> pending s' = committed s' \<and> (fault s = None \<longrightarrow> fault s' = None))
       \<or> (\<exists>s'. generate_age_risk_profiles f db s = (Inl StoreError, s')
            \<and> committed s' = committed s \<and> pending s' = committed s' \<and> fault s \<noteq> None)"
  unfolding generate_age_risk_profiles_def
  by (rule regenerate_outcome [OF assms]) (simp add: fold_tables)

lemma issue_treatment_effects_stage:
  assumes "pending s = committed s"
  shows "(\<exists>s'. generate_issue_treatment_effects db s = (Inr (treatment_effect_rows db), s')
            \<and> committed s' = (committed s)\<lparr>issue_treatment_effects := treatment_effect_rows db\<rparr>
            \<and> pending s' = committed s' \<and> (fault s = None \<longrightarrow> fault s' = None))
       \<or> (\<exists>s'. generate_issue_treatment_effects db s = (Inl StoreError, s')
            \<and> committed s' = committed s \<and> pending s' = committed s' \<and> fault s \<noteq> None)"
  unfolding generate_issue_treatment_effects_def
  by (rule regenerate_outcome [OF assms]) (simp add: fold_tables)

lemma age_timing_benefits_stage:
  assumes "pending s = committed s"
  shows "(\<exists>s'. generate_age_timing_benefits db s = (Inr (timing_benefit_rows db), s')
            \<and> committed s' = (committed s)\<lparr>age_timing_benefits := timing_benefit_rows db\<rparr>
            \<and> pending s' = committed s' \<and> (fault s = None \<longrightarrow> fault s' = None))
       \<or> (\<exists>s'. generate_age_timing_benefits db s = (Inl StoreError, s')
            \<and> committed s' = committed s \<and> pending s' = committed s' \<and> fault s \<noteq> None)"
  unfolding generate_age_timing_benefits_def
  by (rule regenerate_outcome [OF assms]) (simp add: fold_tables)

lemma future_scenarios_stage:
  assumes "pending s = committed s"
  shows "(\<exists>s'. generate_future_scenarios s = (Inr future_scenario_rows, s')
            \<and> committed s' = (committed s)\<lparr>future_scenarios := future_scenario_rows\<rparr>
            \<and> pending s' = committed s' \<and> (fault s = None \<longrightarrow> fault s' = None))
       \<or> (\<exists>s'. generate_future_scenarios s = (Inl StoreError, s')
            \<and> committed s' = committed s \<and> pending s' = committed s' \<and> fault s \<noteq> None)"
  unfolding generate_future_scenarios_def
  by (rule regenerate_outcome [OF assms]) (simp add: fold_tables)

lemma economic_impacts_stage:
  assumes "pending s = committed s"
  shows "(\<exists>s'. generate_economic_impacts s = (Inr economic_impact_rows, s')
            \<and> committed s' = (committed s)\<lparr>economic_impacts := economic_impact_rows\<rparr>
            \<and> pending s' = committed s' \<and> (fault s = None \<longrightarrow> fault s' = None))
       \<or> (\<exists>s'. generate_economic_impacts s = (Inl StoreError, s')
            \<and> committed s' = committed s \<and> pending s' = committed s' \<and> fault s \<noteq> None)"
  unfolding generate_economic_impacts_def
  by (rule regenerate_outcome [OF assms]) (simp add: fold_tables)

lemma regenerated_prefix_steps:
  "regenerated_prefix f db 0 t = t"
  "t\<lparr>age_risk_profiles := age_risk_profile_rows f db\<rparr> = regenerated_prefix f db 1 t"
  "(regenerated_prefix f db 1 t)\<lparr>issue_treatment_effects := treatment_effect_rows db\<rparr>
     = regenerated_prefix f db 2 t"
  "(regenerated_prefix f db 2 t)\<lparr>age_timing_benefits := timing_benefit_rows db\<rparr>
     = regenerated_prefix f db 3 t"
  "(regenerated_prefix f db 3 t)\<lparr>future_scenarios := future_scenario_rows\<rparr>
     = regenerated_prefix f db 4 t"
  "(regenerated_prefix f db 4 t)\<lparr>economic_impacts := economic_impact_rows\<rparr>
     = regenerated_prefix f db 5 t"
  by (simp_all add: regenerated_prefix_def)

lemma empty_db_rows:
  "age_risk_profile_rows f empty_db = []"
  "treatment_effect_rows empty_db = []"
  "length (timing_benefit_rows empty_db) = 5"
  "length future_scenario_rows = 9"
  by (simp_all add: age_risk_profile_rows_def age_risk_profile_at_def risk_findings_def
      profile_from_findings_def age_thresholds_def treatment_effect_rows_def empty_db_def
      timing_benefit_rows_def timing_age_groups_def future_scenario_rows_def timeframes_def
      scenario_age_groups_def)

text \<open>
  C5, as stated, says that the regeneration of all five tables is atomic: when the
  store raises during a write, no derived table is left changed. Every generator
  commits its own table before the next one starts, and the handler of
  \<^verbatim>\<open>generate_all_evidence_data\<close> can only roll back what is not yet committed. On the
  empty database, with empty derived tables and a store whose tenth write raises,
  the first insert of the future scenarios fails, the caller gets the error, and the
  timing-benefit table, regenerated before, holds its five new rows.
\<close>

theorem partial_regeneration_after_store_error:
  "fst (generate_all_evidence_data sample_str_float empty_db failing_store) = Inl StoreError
   \<and> committed failing_store = empty_tables
   \<and> committed (snd (generate_all_evidence_data sample_str_float empty_db failing_store))
       = empty_tables\<lparr>age_timing_benefits := timing_benefit_rows empty_db\<rparr>
   \<and> length (timing_benefit_rows empty_db) = 5
   \<and> length (age_timing_benefits empty_tables) = 0"
  by (simp add: generate_all_evidence_data_def generate_age_risk_profiles_def
      generate_issue_treatment_effects_def generate_age_timing_benefits_def
      generate_future_scenarios_def regenerate_exact fold_tables empty_db_rows
      failing_store_def rollback_def empty_tables_def)

text \<open>
  C5, amended: called with no open transaction, the regeneration of all five tables
  runs the generators in the fixed order, each of them atomic: when the store raises
  during the writes of one generator, the tables of the generators before it are
  regenerated and committed, its own table and those after it are left as they were,
  no transaction stays open, and the caller gets the error; the caller gets the
  error exactly when fewer than five generators completed, and a store that does
  not fail regenerates all five.
\<close>

theorem regenerate_all_outcome:
  assumes "pending s = committed s"
  shows "\<exists>k\<le>5.
      committed (snd (generate_all_evidence_data f db s))
        = regenerated_prefix f db k (committed s)
    \<and> pending (snd (generate_all_evidence_data f db s))
        = committed (snd (generate_all_evidence_data f db s))
    \<and> (fst (generate_all_evidence_data f db s) = Inl StoreError \<longleftrightarrow> k < 5)
    \<and> (isl (fst (generate_all_evidence_data f db s)) \<longleftrightarrow> k < 5)
    \<and> (fault s = None \<longrightarrow> k = 5)"
proof -
  let ?t = "committed s"
  let ?all = "generate_all_evidence_data f db s"
  let ?goal = "\<lambda>k. k \<le> (5 :: nat)
    \<and> committed (snd ?all) = regenerated_prefix f db k ?t
    \<and> pending (snd ?all) = committed (snd ?all)
    \<and> (fst ?all = Inl StoreError \<longleftrightarrow> k < 5)
    \<and> (isl (fst ?all) \<longleftrightarrow> k < 5)
    \<and> (fault s = None \<longrightarrow> k = 5)"
  from age_risk_profiles_stage [OF assms, of f db]
  have "\<exists>k. ?goal k"
  proof (elim disjE exE conjE)
    fix s1
    assume g1: "generate_age_risk_profiles f db s = (Inl StoreError, s1)"
      and c1: "committed s1 = ?t" and p1: "pending s1 = committed s1"
      and f1: "fault s \<noteq> None"
    have "?goal 0"
      using c1 p1 f1
      by (simp add: generate_all_evidence_data_def g1 rollback_def regenerated_prefix_steps)
    then show ?thesis ..
  next
    fix s1
    assume g1: "generate_age_risk_profiles f db s = (Inr (age_risk_profile_rows f db), s1)"
      and c1': "committed s1 = ?t\<lparr>age_risk_profiles := age_risk_profile_rows f db\<rparr>"
      and p1: "pending s1 = committed s1"
      and f1: "fault s = None \<longrightarrow> fault s1 = None"
    from c1' have c1: "committed s1 = regenerated_prefix f db 1 ?t"
      by (simp only: regenerated_prefix_steps)
    from issue_treatment_effects_stage [OF p1, of db]
    show ?thesis
    proof (elim disjE exE conjE)
      fix s2
      assume g2: "generate_issue_treatment_effects db s1 = (Inl StoreError, s2)"
        and c2: "committed s2 = committed s1" and p2: "pending s2 = committed s2"
        and f2: "fault s1 \<noteq> None"
      from f1 f2 have n: "fault s \<noteq> None" by blast
      have "?goal 1"
        using c1 c2 p2 n
        by (simp add: generate_all_evidence_data_def g1 g2 rollback_def)
      then show ?thesis ..
    next
      fix s2
      assume g2: "generate_issue_treatment_effects db s1 = (Inr (treatment_effect_rows db), s2)"
        and c2': "committed s2 = (committed s1)\<lparr>issue_treatment_effects := treatment_effect_rows db\<rparr>"
        and p2: "pending s2 = committed s2"
        and f2: "fault s1 = None \<longrightarrow> fault s2 = None"
      from c2' c1 have c2: "committed s2 = regenerated_prefix f db 2 ?t"
        by (simp only: regenerated_prefix_steps)
      from f1 f2 have F2: "fault s = None \<longrightarrow> fault s2 = None" by blast
      from age_timing_benefits_stage [OF p2, of db]
      show ?thesis
      proof (elim disjE exE conjE)
        fix s3
        assume g3: "generate_age_timing_benefits db s2 = (Inl StoreError, s3)"
          and c3: "committed s3 = committed s2" and p3: "pending s3 = committed s3"
          and f3: "fault s2 \<noteq> None"
        from F2 f3 have n: "fault s \<noteq> None" by blast
        have "?goal 2"
          using c2 c3 p3 n
          by (simp add: generate_all_evidence_data_def g1 g2 g3 rollback_def)
        then show ?thesis ..
      next
        fix s3
        assume g3: "generate_age_timing_benefits db s2 = (Inr (timing_benefit_rows db), s3)"
          and c3': "committed s3 = (committed s2)\<lparr>age_timing_benefits := timing_benefit_rows db\<rparr>"
          and p3: "pending s3 = committed s3"
          and f3: "fault s2 = None \<longrightarrow> fault s3 = None"
        from c3' c2 have c3: "committed s3 = regenerated_prefix f db 3 ?t"
          by (simp only: regenerated_prefix_steps)
        from F2 f3 have F3: "fault s = None \<longrightarrow> fault s3 = None" by blast
        from future_scenarios_stage [OF p3]
        show ?thesis
        proof (elim disjE exE conjE)
          fix s4
          assume g4: "generate_future_scenarios s3 = (Inl StoreError, s4)"
            and c4: "committed s4 = committed s3" and p4: "pending s4 = committed s4"
            and f4: "fault s3 \<noteq> None"
          from F3 f4 have n: "fault s \<noteq> None" by blast
          have "?goal 3"
            using c3 c4 p4 n
            by (simp add: generate_all_evidence_data_def g1 g2 g3 g4 rollback_def)
          then show ?thesis ..
        next
          fix s4
          assume g4: "generate_future_scenarios s3 = (Inr future_scenario_rows, s4)"
            and c4': "committed s4 = (committed s3)\<lparr>future_scenarios := future_scenario_rows\<rparr>"
            and p4: "pending s4 = committed s4"
            and f4: "fault s3 = None \<longrightarrow> fault s4 = None"
          from c4' c3 have c4: "committed s4 = regenerated_prefix f db 4 ?t"
            by (simp only: regenerated_prefix_steps)
          from F3 f4 have F4: "fault s = None \<longrightarrow> fault s4 = None" by blast
          from economic_impacts_stage [OF p4]
          show ?thesis
          proof (elim disjE exE conjE)
            fix s5
            assume g5: "generate_economic_impacts s4 = (Inl StoreError, s5)"
              and c5: "committed s5 = committed s4" and p5: "pending s5 = committed s5"
              and f5: "fault s4 \<noteq> None"
            from F4 f5 have n: "fault s \<noteq> None" by blast
            have "?goal 4"
              using c4 c5 p5 n
              by (simp add: generate_all_evidence_data_def g1 g2 g3 g4 g5 rollback_def)
            then show ?thesis ..
          next
            fix s5
            assume g5: "generate_economic_impacts s4 = (Inr economic_impact_rows, s5)"
              and c5': "committed s5 = (committed s4)\<lparr>economic_impacts := economic_impact_rows\<rparr>"
              and p5: "pending s5 = committed s5"
            from c5' c4 have c5: "committed s5 = regenerated_prefix f db 5 ?t"
              by (simp only: regenerated_prefix_steps)
            have "?goal 5"
              using c5 p5
              by (simp add: generate_all_evidence_data_def g1 g2 g3 g4 g5 commit_def)
            then show ?thesis ..
          qed
        qed
      qed
    qed
  qed
  then show ?thesis by blast
qed

theorem regenerate_all_outcome_witness:
  "pending sound_store = committed sound_store
   \<and> committed (snd (generate_all_evidence_data sample_str_float empty_db sound_store))
       = regenerated_prefix sample_str_float empty_db 5 (committed sound_store)
   \<and> \<not> isl (fst (generate_all_evidence_data sample_str_float empty_db sound_store))"
proof -
  have p: "pending sound_store = committed sound_store" and f: "fault sound_store = None"
    by (simp_all add: sound_store_def)
  from regenerate_all_outcome [OF p, of sample_str_float empty_db] f p
  show ?thesis by auto
qed

end
